theory Spec2Isabelle
  imports Complex_Main
begin

section \<open>Strings\<close>

text \<open>
  Python strings are modelled as \<open>string\<close>. The application formats its log lines with
  \<open>%\<close>, f-strings and \<open>str.join\<close>; all of them only concatenate.
\<close>

definition newline :: string where
  "newline = [CHR 0x0A]"

definition dquote :: string where
  "dquote = [CHR 0x22]"

text \<open>\<open>sep.join(xs)\<close>.\<close>

fun join :: "string \<Rightarrow> string list \<Rightarrow> string" where
  "join sep [] = []"
| "join sep [x] = x"
| "join sep (x # y # ys) = x @ sep @ join sep (y # ys)"

text \<open>
  Python's \<open>str.upper\<close>, \<open>str.lower\<close>, \<open>str.strip\<close> and \<open>str.split\<close> work on Unicode
  text: \<open>upper\<close> maps U+00E9 to U+00C9 and U+00DF to two letters, \<open>strip\<close> and \<open>split\<close>
  remove the Unicode spaces too. No table over the bytes of \<open>string\<close> follows them, so the
  application takes the four methods from its environment (below) and every property
  holds for whatever they compute. The functions here are the four methods on ASCII
  text, where they are tables; the concrete configuration at the end, whose strings are
  all ASCII, uses them.
\<close>

definition ascii_lowercase :: string where
  "ascii_lowercase = ''abcdefghijklmnopqrstuvwxyz''"

definition ascii_uppercase :: string where
  "ascii_uppercase = ''ABCDEFGHIJKLMNOPQRSTUVWXYZ''"

definition translate :: "string \<Rightarrow> string \<Rightarrow> char \<Rightarrow> char" where
  "translate src dst c = (case map_of (zip src dst) c of None \<Rightarrow> c | Some d \<Rightarrow> d)"

definition ascii_upper :: "string \<Rightarrow> string" where
  "ascii_upper s = map (translate ascii_lowercase ascii_uppercase) s"

definition ascii_lower :: "string \<Rightarrow> string" where
  "ascii_lower s = map (translate ascii_uppercase ascii_lowercase) s"

text \<open>\<open>s.startswith(p)\<close>.\<close>

definition startswith :: "string \<Rightarrow> string \<Rightarrow> bool" where
  "startswith s p = (take (length p) s = p)"


section \<open>Compiled regular expressions\<close>

text \<open>
  \<open>start_market_making\<close> compiles every configured pattern with \<open>re.compile\<close> and asks
  \<open>regex.match(symbol)\<close>, which succeeds when the pattern matches some prefix of the
  symbol (\<open>match\<close> anchors at the start only). The compiled pattern is modelled by its
  syntax tree; \<open>Dot\<close> is Python's \<open>.\<close>, which matches every character but the newline.
  The pattern \<open>BTC.*\<close> is \<open>Seq (Lit B) (Seq (Lit T) (Seq (Lit C) (Star Dot)))\<close>.
\<close>

datatype pattern =
    Never
  | Empty
  | Lit char
  | Dot
  | Seq pattern pattern
  | Alt pattern pattern
  | Star pattern

text \<open>The language of a pattern, as the reference for the matcher below.\<close>

inductive_set star_lang :: "string set \<Rightarrow> string set" for L :: "string set" where
  star_nil: "[] \<in> star_lang L"
| star_app: "u \<in> L \<Longrightarrow> v \<in> star_lang L \<Longrightarrow> u @ v \<in> star_lang L"

fun lang :: "pattern \<Rightarrow> string set" where
  "lang Never = {}"
| "lang Empty = {[]}"
| "lang (Lit c) = {[c]}"
| "lang Dot = {[c] | c. c \<noteq> CHR 0x0A}"
| "lang (Seq r s) = {u @ v | u v. u \<in> lang r \<and> v \<in> lang s}"
| "lang (Alt r s) = lang r \<union> lang s"
| "lang (Star r) = star_lang (lang r)"

text \<open>The matcher: derivatives of the pattern by the characters read so far.\<close>

fun nullable :: "pattern \<Rightarrow> bool" where
  "nullable Never = False"
| "nullable Empty = True"
| "nullable (Lit c) = False"
| "nullable Dot = False"
| "nullable (Seq r s) = (nullable r \<and> nullable s)"
| "nullable (Alt r s) = (nullable r \<or> nullable s)"
| "nullable (Star r) = True"

fun deriv :: "char \<Rightarrow> pattern \<Rightarrow> pattern" where
  "deriv c Never = Never"
| "deriv c Empty = Never"
| "deriv c (Lit d) = (if c = d then Empty else Never)"
| "deriv c Dot = (if c = CHR 0x0A then Never else Empty)"
| "deriv c (Seq r s) =
     (if nullable r then Alt (Seq (deriv c r) s) (deriv c s) else Seq (deriv c r) s)"
| "deriv c (Alt r s) = Alt (deriv c r) (deriv c s)"
| "deriv c (Star r) = Seq (deriv c r) (Star r)"

text \<open>\<open>regex.match(s) is not None\<close>: some prefix of \<open>s\<close> is in the language.\<close>

fun re_match :: "pattern \<Rightarrow> string \<Rightarrow> bool" where
  "re_match r [] = nullable r"
| "re_match r (c # cs) = (nullable r \<or> re_match (deriv c r) cs)"

text \<open>The pattern of a literal string, for writing down configured rules.\<close>

fun literal :: "string \<Rightarrow> pattern" where
  "literal [] = Empty"
| "literal (c # cs) = Seq (Lit c) (literal cs)"


section \<open>Top depth tolerance\<close>

text \<open>
  The loop of \<open>start_market_making\<close> over the compiled rules:
  \<^verbatim>\<open>
  top_depth_tolerance = 0.0
  for regex, tolerance_value in top_depth_tolerance_rules:
      if regex.match(raw_maker_symbol) is not None:
          top_depth_tolerance = tolerance_value
  \<close>
  The loop has no \<open>break\<close>: every rule is visited and each matching rule overwrites the
  value found so far. The tolerances are only stored, never computed with, so the
  floats are modelled as reals.
\<close>

fun top_depth_tolerance_loop :: "(pattern \<times> real) list \<Rightarrow> string \<Rightarrow> real \<Rightarrow> real" where
  "top_depth_tolerance_loop [] raw_maker_symbol top_depth_tolerance = top_depth_tolerance"
| "top_depth_tolerance_loop ((regex, tolerance_value) # rules) raw_maker_symbol top_depth_tolerance =
     top_depth_tolerance_loop rules raw_maker_symbol
       (if re_match regex raw_maker_symbol then tolerance_value else top_depth_tolerance)"

definition resolve_top_depth_tolerance :: "(pattern \<times> real) list \<Rightarrow> string \<Rightarrow> real" where
  "resolve_top_depth_tolerance top_depth_tolerance_rules raw_maker_symbol =
     top_depth_tolerance_loop top_depth_tolerance_rules raw_maker_symbol 0"

text \<open>
  The specification's reading: the value of the first rule whose pattern matches the
  symbol, and 0 when no rule matches.
\<close>

fun first_match_tolerance :: "(pattern \<times> real) list \<Rightarrow> string \<Rightarrow> real" where
  "first_match_tolerance [] symbol = 0"
| "first_match_tolerance ((regex, tolerance_value) # rules) symbol =
     (if re_match regex symbol then tolerance_value else first_match_tolerance rules symbol)"

text \<open>What the loop computes: the value of the last matching rule.\<close>

definition last_match_tolerance :: "(pattern \<times> real) list \<Rightarrow> string \<Rightarrow> real" where
  "last_match_tolerance rules symbol =
     (case filter (\<lambda>rule. re_match (fst rule) symbol) rules of
        [] \<Rightarrow> 0
      | m # ms \<Rightarrow> snd (last (m # ms)))"

text \<open>The rules of the specification's example: \<open>[("BTC.*", 0.01), (".*", 0.0)]\<close>.\<close>

definition example_rules :: "(pattern \<times> real) list" where
  "example_rules = [(Seq (literal ''BTC'') (Star Dot), 1 / 100), (Star Dot, 0)]"



section \<open>Strings of the command line\<close>

definition squote :: string where
  "squote = [CHR 0x27]"

definition backtick :: string where
  "backtick = [CHR 0x60]"

text \<open>
  The ASCII characters for which \<open>str.isspace\<close> holds, which \<open>str.strip\<close> and
  \<open>str.split\<close> remove: the space, 0x09 to 0x0D and 0x1C to 0x1F.
\<close>

definition ascii_is_space :: "char \<Rightarrow> bool" where
  "ascii_is_space c =
     (c \<in> set [CHR 0x20, CHR 0x09, CHR 0x0A, CHR 0x0B, CHR 0x0C, CHR 0x0D,
                CHR 0x1C, CHR 0x1D, CHR 0x1E, CHR 0x1F])"

definition ascii_strip :: "string \<Rightarrow> string" where
  "ascii_strip s = rev (dropWhile ascii_is_space (rev (dropWhile ascii_is_space s)))"

fun split_acc :: "string \<Rightarrow> string \<Rightarrow> string list" where
  "split_acc w [] = (if w = [] then [] else [w])"
| "split_acc w (c # cs) =
     (if ascii_is_space c then (if w = [] then split_acc [] cs else w # split_acc [] cs)
      else split_acc (w @ [c]) cs)"

definition ascii_split :: "string \<Rightarrow> string list" where
  "ascii_split s = split_acc [] s"


section \<open>The data of the application\<close>

text \<open>
  \<open>CancellationResult\<close>: one entry per order of a bulk cancel. \<open>success\<close> is a bool, so
  the test \<open>cr.success is False\<close> of the source is \<open>\<not> success cr\<close>.
\<close>

record cancellation_result =
  order_id :: string
  success :: bool

record local_account =
  address :: string
  privateKey :: string

datatype ethereum_chain = MAIN_NET

record web3_wallet =
  private_key :: string
  backend_urls :: "string list"
  erc20_token_addresses :: "string list"
  chain :: ethereum_chain

datatype order_book_tracker_data_source_type = EXCHANGE_API

text \<open>
  The three market classes, each with the arguments \<open>_initialize_markets\<close> constructs it
  from. What a market answers (\<open>ready\<close>, \<open>cancel_all\<close>) is the exchange's behaviour and
  comes from the environment below.
\<close>

datatype market_base =
    DDEXMarket "web3_wallet option" string order_book_tracker_data_source_type "string list"
  | BinanceMarket string string string order_book_tracker_data_source_type "string list"
  | RadarRelayMarket "web3_wallet option" string "string list"

text \<open>
  The market pairs, with the positional arguments in the order the source passes them:
  market, symbol, base asset, quote asset, twice; then the top depth tolerance for the
  cross exchange pair. An entry of \<open>self.markets\<close> is \<open>None\<close> when the market name was not
  one of the three known names.
\<close>

datatype market_pair =
    CrossExchangeMarketPair
      "market_base option" string string string
      "market_base option" string string string real
  | ArbitrageMarketPair
      "market_base option" string string string
      "market_base option" string string string

datatype logging_option =
    OPTION_LOG_CREATE_ORDER
  | OPTION_LOG_ADJUST_ORDER
  | OPTION_LOG_MAKER_ORDER_FILLED
  | OPTION_LOG_REMOVING_ORDER
  | OPTION_LOG_STATUS_REPORT
  | OPTION_LOG_MAKER_ORDER_HEDGED
  | OPTION_LOG_ALL

text \<open>
  The strategies with their keyword arguments in the order of the source:
  \<open>market_pairs\<close>, \<open>min_profitability\<close>, \<open>status_report_interval\<close>, \<open>logging_options\<close>,
  \<open>trade_size_override\<close>, \<open>limit_order_min_expiration\<close>, \<open>cancel_order_threshold\<close>,
  \<open>active_order_canceling\<close>; and \<open>market_pairs\<close>, \<open>min_profitability\<close>,
  \<open>logging_options\<close>. The bitwise or of the logging flags is the list of the flags.
\<close>

datatype strategy_base =
    CrossExchangeMarketMakingStrategy
      "market_pair list" real real "logging_option list" real real real bool
  | ArbitrageStrategy "market_pair list" real "logging_option list"

datatype clock_mode = REALTIME

datatype time_iterator =
    WalletIterator "web3_wallet option"
  | MarketIterator "market_base option"
  | StrategyIterator "strategy_base option"

text \<open>
  Modelled from the spec: \<open>Clock\<close> of the external library \<open>wings\<close>, which "holds an
  ordered sequence of registered iterators" and whose \<open>add_iterator(participant)\<close>
  "registers a participant"; a tick invokes them in registration order. The record keeps
  the iterators in the order of the \<open>add_iterator\<close> calls.
\<close>

record clock =
  mode :: clock_mode
  iterators :: "time_iterator list"

definition add_iterator :: "time_iterator \<Rightarrow> clock \<Rightarrow> clock" where
  "add_iterator it c = c\<lparr>iterators := iterators c @ [it]\<rparr>"

text \<open>
  An \<open>asyncio.Task\<close>: \<open>cancel()\<close> requests the cancellation, \<open>cancelled()\<close> tells
  whether the task has ended cancelled.
\<close>

record task =
  cancel_requested :: bool
  cancelled :: bool

record report_aggregator =
  report_aggregation_interval :: real
  log_report_interval :: real
  running :: bool

datatype error =
    InvalidCommandError string
  | ArgumentParserError string
  | NotImplementedError
  | AttributeError
  | KeyError string

datatype 'a outcome = Returns 'a | Raises error

text \<open>
  The records written through the \<open>logging\<close> module: the command history, the warning
  of \<open>check_web3\<close>, an error logged by the application's logger, and the error record
  "Task exception was never retrieved" that asyncio's exception handler logs for a task
  that ended with an exception nobody retrieved.
\<close>

datatype logging_record =
    CommandHistory string
  | RootWarning string
  | LoggerError error
  | TaskExceptionNeverRetrieved error

text \<open>
  The application object. The fields up to \<open>reporting_module\<close> are the attributes that
  \<open>__init__\<close> sets; \<open>markets\<close> is a Python dict, kept as an association list in insertion
  order. The remaining fields record the effects on the collaborators: the lines passed
  to \<open>self.app.log\<close>, the number of \<open>self.app.exit()\<close> calls, the \<open>cancel_all\<close> calls
  (market name and timeout), the strategy names of the \<open>start_market_making\<close> coroutines
  handed to \<open>asyncio.ensure_future\<close> and not yet run, the exceptions with which such
  tasks ended, the records written through the \<open>logging\<close> module, the log levels passed
  to \<open>init_logging\<close>, and whether \<open>ExchangeRateConversion\<close> was started.
\<close>

record hummingbot_application =
  acct :: "local_account option"
  markets :: "(string \<times> market_base option) list"
  wallet :: "web3_wallet option"
  strategy_task :: "task option"
  strategy :: "strategy_base option"
  market_pair :: "market_pair option"
  clock :: "clock option"
  placeholder_mode :: bool
  reporting_module :: "report_aggregator option"
  app_log :: "string list"
  app_exit_calls :: nat
  cancel_all_calls :: "(string \<times> real) list"
  scheduled_start_market_making :: "string list"
  task_exceptions :: "error list"
  logging_records :: "logging_record list"
  init_logging_calls :: "string list"
  exchange_rate_conversion_started :: bool

text \<open>The keys of a strategy config map that \<open>start_market_making\<close> reads.\<close>

record strategy_config_map =
  cm_maker_market :: string
  cm_taker_market :: string
  cm_maker_market_symbol :: string
  cm_taker_market_symbol :: string
  cm_min_profitability :: real
  cm_trade_size_override :: real
  cm_limit_order_min_expiration :: real
  cm_cancel_order_threshold :: real
  cm_active_order_canceling :: bool
  cm_top_depth_tolerance :: "(pattern \<times> real) list"
  cm_primary_market :: string
  cm_secondary_market :: string
  cm_primary_market_symbol :: string
  cm_secondary_market_symbol :: string

text \<open>
  Everything the application reads from outside itself: the values of
  \<open>global_config_map\<close> and \<open>in_memory_config_map\<close>, \<open>get_strategy_config_map\<close>, whether
  \<open>load_required_configs\<close> has no empty value, whether the Ethereum node answers
  (\<open>None\<close> when the call raises), \<open>SymbolSplitter.split\<close> (\<open>Inl msg\<close> is
  \<open>ValueError(msg)\<close>), \<open>get_erc20_token_addresses\<close>, and for every market its \<open>ready\<close>
  flag and the list its \<open>cancel_all(timeout)\<close> returns, and \<open>format_status\<close> of a strategy.
  \<open>SymbolSplitter\<close> and the settings are defined in other modules than the one
  modelled here, so they are parameters. The last four fields are the string methods
  \<open>str.lower\<close>, \<open>str.upper\<close>, \<open>str.strip\<close> and \<open>str.split\<close> of the Python runtime.
\<close>

record environment =
  on_chain_cancel_on_exit :: bool
  ethereum_rpc_url :: string
  binance_api_key :: string
  binance_api_secret :: string
  strategy_report_interval :: real
  reporting_aggregation_interval :: real
  reporting_log_interval :: real
  in_memory_strategy :: string
  get_strategy_config_map :: "string \<Rightarrow> strategy_config_map"
  config_complete :: bool
  web3_is_connected :: "string \<Rightarrow> bool option"
  symbol_split :: "string \<Rightarrow> string \<Rightarrow> string + string \<times> string"
  get_erc20_token_addresses :: "string set \<Rightarrow> string list"
  market_ready :: "market_base \<Rightarrow> bool"
  market_cancel_all :: "market_base \<Rightarrow> real \<Rightarrow> cancellation_result list"
  format_status :: "strategy_base \<Rightarrow> string"
  str_lower :: "string \<Rightarrow> string"
  str_upper :: "string \<Rightarrow> string"
  str_strip :: "string \<Rightarrow> string"
  str_split :: "string \<Rightarrow> string list"

definition KILL_TIMEOUT :: real where
  "KILL_TIMEOUT = 5"

definition log_line :: "string \<Rightarrow> hummingbot_application \<Rightarrow> hummingbot_application" where
  "log_line msg s = s\<lparr>app_log := app_log s @ [msg]\<rparr>"

text \<open>\<open>d[k] = v\<close> on a dict in insertion order: an existing key keeps its place.\<close>

fun dict_set :: "'k \<Rightarrow> 'v \<Rightarrow> ('k \<times> 'v) list \<Rightarrow> ('k \<times> 'v) list" where
  "dict_set k v [] = [(k, v)]"
| "dict_set k v ((k', v') # kvs) =
     (if k = k' then (k, v) # kvs else (k', v') # dict_set k v kvs)"

text \<open>The initial state that \<open>__init__\<close> builds.\<close>

definition init :: hummingbot_application where
  "init = \<lparr>acct = None, markets = [], wallet = None, strategy_task = None, strategy = None,
     market_pair = None, clock = None, placeholder_mode = False, reporting_module = None,
     app_log = [], app_exit_calls = 0, cancel_all_calls = [],
     scheduled_start_market_making = [], task_exceptions = [], logging_records = [],
     init_logging_calls = [], exchange_rate_conversion_started = False\<rparr>"


section \<open>Cancelling the outstanding orders\<close>

text \<open>
  \<open>_cancel_outstanding_orders\<close>. The loop over \<open>self.markets.items()\<close> carries the
  \<open>success\<close> flag (here \<open>ok\<close>) and the application. A market entry that is \<open>None\<close> has no
  \<open>cancel_all\<close>: the call raises \<open>AttributeError\<close>. The coroutine is taken as one step:
  nothing else touches the application while it waits for a market.
\<close>

definition failed_to_cancel_message :: "string \<Rightarrow> string list \<Rightarrow> string" where
  "failed_to_cancel_message market_name uncancelled_order_ids =
     newline @ ''Failed to cancel the following orders on '' @ market_name @ '':'' @ newline @
     join newline uncancelled_order_ids"

fun cancel_loop ::
  "environment \<Rightarrow> (string \<times> market_base option) list \<Rightarrow> bool \<Rightarrow> hummingbot_application
     \<Rightarrow> bool outcome \<times> hummingbot_application" where
  "cancel_loop env [] ok s = (Returns ok, s)"
| "cancel_loop env ((market_name, market) # rest) ok s =
     (if \<not> on_chain_cancel_on_exit env \<and> market_name = ''radar_relay'' then
        cancel_loop env rest ok s
      else
        (case market of
           None \<Rightarrow> (Raises AttributeError, s)
         | Some m \<Rightarrow>
             (let cancellation_results = market_cancel_all env m KILL_TIMEOUT;
                  s1 = s\<lparr>cancel_all_calls := cancel_all_calls s @ [(market_name, KILL_TIMEOUT)]\<rparr>;
                  uncancelled = filter (\<lambda>cr. success cr = False) cancellation_results
              in if length uncancelled > 0 then
                   (let uncancelled_order_ids = map order_id uncancelled
                    in cancel_loop env rest False
                         (log_line (failed_to_cancel_message market_name uncancelled_order_ids) s1))
                 else cancel_loop env rest ok s1)))"

definition cancel_outstanding_orders ::
  "environment \<Rightarrow> hummingbot_application \<Rightarrow> bool outcome \<times> hummingbot_application" where
  "cancel_outstanding_orders env s =
     (let s1 = log_line ''Cancelling outstanding orders...'' s
      in (case cancel_loop env (markets s1) True s1 of
            (Raises e, s2) \<Rightarrow> (Raises e, s2)
          | (Returns ok, s2) \<Rightarrow>
              (Returns ok, if ok then log_line ''All outstanding orders cancelled.'' s2 else s2)))"


section \<open>Status\<close>

text \<open>
  \<open>check_web3\<close>: the answer of the node, \<open>False\<close> when the call raises, and the warning
  written to the root logger for an insecure Infura address.
\<close>

definition infura_warning :: string where
  "infura_warning =
     ''You are connecting to an Infura using an insecure network protocol ('' @ dquote @
     ''http'' @ dquote @ ''), which may not be allowed by Infura. Try using '' @ dquote @
     ''https://'' @ dquote @ '' instead.''"

definition check_web3 :: "environment \<Rightarrow> string \<Rightarrow> bool \<times> logging_record list" where
  "check_web3 env url =
     (let ret = (case web3_is_connected env url of None \<Rightarrow> False | Some b \<Rightarrow> b)
      in if \<not> ret \<and> startswith url ''http://mainnet.infura.io''
         then (ret, [RootWarning infura_warning])
         else (ret, []))"

text \<open>The loop of \<open>status\<close> that collects the names of the markets that are not ready.\<close>

fun loading_markets_loop ::
  "environment \<Rightarrow> (string \<times> market_base option) list \<Rightarrow> string list \<Rightarrow> string list outcome" where
  "loading_markets_loop env [] loading_markets = Returns loading_markets"
| "loading_markets_loop env ((market_name, market) # rest) loading_markets =
     (case market of
        None \<Rightarrow> Raises AttributeError
      | Some m \<Rightarrow>
          loading_markets_loop env rest
            (if \<not> market_ready env m then loading_markets @ [market_name] else loading_markets))"

definition waiting_message :: "string \<Rightarrow> string" where
  "waiting_message loading_market =
     '' x Waiting for '' @ loading_market @ '' market to get ready for trading. '' @
     ''Please keep the bot running and try to start again in a few minutes''"

definition pending_config_message :: string where
  "pending_config_message =
     '' x Pending config. Please enter '' @ dquote @ ''config'' @ dquote @
     '' before starting the bot.''"

definition bad_rpc_message :: string where
  "bad_rpc_message =
     '' x Bad ethereum rpc url. Your node may be syncing. '' @
     ''Please re-configure by entering '' @ dquote @ ''config ethereum_rpc_url'' @ dquote"

definition status ::
  "environment \<Rightarrow> hummingbot_application \<Rightarrow> bool outcome \<times> hummingbot_application" where
  "status env s =
     (if config_complete env then
        (let s1 = log_line '' - Config complete'' s;
             (eth_node_valid, warnings) = check_web3 env (ethereum_rpc_url env);
             s2 = s1\<lparr>logging_records := logging_records s1 @ warnings\<rparr>
         in if eth_node_valid then
              (let s3 = log_line '' - Ethereum node running and current'' s2
               in (case loading_markets_loop env (markets s3) [] of
                     Raises e \<Rightarrow> (Raises e, s3)
                   | Returns loading_markets \<Rightarrow>
                       if strategy s3 = None then (Returns True, s3)
                       else if length loading_markets > 0 then
                         (Returns False, fold (\<lambda>loading_market. log_line (waiting_message loading_market))
                            loading_markets s3)
                       else
                         (let s4 = log_line '' - All markets ready'' s3;
                              s5 = (case strategy s4 of
                                      None \<Rightarrow> s4
                                    | Some st \<Rightarrow> log_line (newline @ format_status env st) s4)
                          in (Returns False, s5))))
            else (Returns False, log_line bad_rpc_message s2))
      else (Returns False, log_line pending_config_message s))"


section \<open>Starting a strategy\<close>

definition init_reporting_module ::
  "environment \<Rightarrow> hummingbot_application \<Rightarrow> hummingbot_application" where
  "init_reporting_module env s =
     (let rm = (case reporting_module s of
                  None \<Rightarrow> \<lparr>report_aggregation_interval = reporting_aggregation_interval env,
                            log_report_interval = reporting_log_interval env,
                            running = False\<rparr>
                | Some rm \<Rightarrow> rm)
      in s\<lparr>reporting_module := Some (rm\<lparr>running := True\<rparr>)\<rparr>)"

text \<open>
  \<open>start\<close>: after a valid status it hands the coroutine \<open>start_market_making\<close> to
  \<open>asyncio.ensure_future\<close> and returns; the coroutine runs later, from the event loop.
\<close>

definition start ::
  "environment \<Rightarrow> string option \<Rightarrow> hummingbot_application \<Rightarrow> unit outcome \<times> hummingbot_application" where
  "start env log_level s =
     (case status env s of
        (Raises e, s1) \<Rightarrow> (Raises e, s1)
      | (Returns is_valid, s1) \<Rightarrow>
          if \<not> is_valid then (Returns (), s1)
          else
            (let s2 = (case log_level of
                         None \<Rightarrow> s1
                       | Some l \<Rightarrow> s1\<lparr>init_logging_calls := init_logging_calls s1 @ [str_upper env l]\<rparr>);
                 s3 = s2\<lparr>exchange_rate_conversion_started := True\<rparr>;
                 strategy_name = in_memory_strategy env;
                 s4 = init_reporting_module env s3;
                 s5 = log_line (''Status check complete. Starting '' @ squote @ strategy_name @
                        squote @ '' strategy...'') s4
             in (Returns (),
                 s5\<lparr>scheduled_start_market_making :=
                      scheduled_start_market_making s5 @ [strategy_name]\<rparr>)))"

text \<open>
  \<open>_initialize_wallet\<close>. The token symbols arrive as \<open>list(set(...))\<close>, whose order is not
  fixed, so they are a set. \<open>self.acct.privateKey\<close> raises \<open>AttributeError\<close> when no
  account was unlocked.
\<close>

definition initialize_wallet ::
  "environment \<Rightarrow> string set \<Rightarrow> hummingbot_application \<Rightarrow> unit outcome \<times> hummingbot_application" where
  "initialize_wallet env token_symbols s =
     (let url = ethereum_rpc_url env;
          addresses = get_erc20_token_addresses env token_symbols
      in (case acct s of
            None \<Rightarrow> (Raises AttributeError, s)
          | Some a \<Rightarrow>
              (Returns (),
               s\<lparr>wallet := Some \<lparr>private_key = privateKey a, backend_urls = [url],
                    erc20_token_addresses = addresses, chain = MAIN_NET\<rparr>\<rparr>)))"

text \<open>
  \<open>_initialize_markets\<close>: \<open>market\<close> starts as \<open>None\<close> and stays so for a name that is none
  of the three; the entry is stored in either case.
\<close>

definition new_market ::
  "environment \<Rightarrow> web3_wallet option \<Rightarrow> string \<Rightarrow> string \<Rightarrow> market_base option" where
  "new_market env w market_name symbol =
     (if market_name = ''ddex'' then
        Some (DDEXMarket w (ethereum_rpc_url env) EXCHANGE_API [symbol])
      else if market_name = ''binance'' then
        Some (BinanceMarket (ethereum_rpc_url env) (binance_api_key env) (binance_api_secret env)
                EXCHANGE_API [symbol])
      else if market_name = ''radar_relay'' then
        Some (RadarRelayMarket w (ethereum_rpc_url env) [symbol])
      else None)"

fun initialize_markets ::
  "environment \<Rightarrow> (string \<times> string) list \<Rightarrow> hummingbot_application \<Rightarrow> hummingbot_application" where
  "initialize_markets env [] s = s"
| "initialize_markets env ((market_name, symbol) # market_names) s =
     initialize_markets env market_names
       (s\<lparr>markets := dict_set market_name (new_market env (wallet s) market_name symbol) (markets s)\<rparr>)"

text \<open>\<open>self.markets[name]\<close>: \<open>KeyError\<close> for a missing key.\<close>

definition markets_getitem ::
  "hummingbot_application \<Rightarrow> string \<Rightarrow> market_base option outcome" where
  "markets_getitem s market_name =
     (case map_of (markets s) market_name of
        None \<Rightarrow> Raises (KeyError market_name)
      | Some market \<Rightarrow> Returns market)"

text \<open>
  The last block of \<open>start_market_making\<close>: the clock, its iterators in the order of the
  \<open>add_iterator\<close> calls, and the task that runs the clock. With the clock modelled as
  above none of these calls raises, so the \<open>except\<close> branch of the source is not taken.
\<close>

definition strategy_started_message :: "string \<Rightarrow> string" where
  "strategy_started_message strategy_name =
     newline @ squote @ strategy_name @ squote @ '' strategy started.'' @ newline @
     ''You can use the '' @ backtick @ ''status'' @ backtick @
     '' command to query the progress.''"

definition start_clock :: "string \<Rightarrow> hummingbot_application \<Rightarrow> hummingbot_application" where
  "start_clock strategy_name s =
     (let c0 = \<lparr>mode = REALTIME, iterators = []\<rparr>;
          c1 = add_iterator (WalletIterator (wallet s)) c0;
          c2 = fold (\<lambda>market. add_iterator (MarketIterator market)) (map snd (markets s)) c1;
          c3 = add_iterator (StrategyIterator (strategy s)) c2;
          s1 = s\<lparr>clock := Some c3,
                 strategy_task := Some \<lparr>cancel_requested = False, cancelled = False\<rparr>\<rparr>
      in log_line (strategy_started_message strategy_name) s1)"

definition cross_exchange_logging_options :: "logging_option list" where
  "cross_exchange_logging_options =
     [OPTION_LOG_CREATE_ORDER, OPTION_LOG_ADJUST_ORDER, OPTION_LOG_MAKER_ORDER_FILLED,
      OPTION_LOG_REMOVING_ORDER, OPTION_LOG_STATUS_REPORT, OPTION_LOG_MAKER_ORDER_HEDGED]"

text \<open>
  The branch of \<open>start_market_making\<close> for \<open>cross_exchange_market_making\<close>. A
  \<open>ValueError\<close> of \<open>SymbolSplitter.split\<close> is logged and the coroutine returns. The
  branch ends with the block that starts the clock, which the source shares between the
  two strategies.
\<close>

definition start_cross_exchange ::
  "environment \<Rightarrow> string \<Rightarrow> strategy_config_map \<Rightarrow> hummingbot_application
     \<Rightarrow> unit outcome \<times> hummingbot_application" where
  "start_cross_exchange env strategy_name strategy_cm s =
     (let maker_market = str_lower env (cm_maker_market strategy_cm);
          taker_market = str_lower env (cm_taker_market strategy_cm);
          raw_maker_symbol = str_upper env (cm_maker_market_symbol strategy_cm);
          raw_taker_symbol = str_upper env (cm_taker_market_symbol strategy_cm);
          top_depth_tolerance =
            resolve_top_depth_tolerance (cm_top_depth_tolerance strategy_cm) raw_maker_symbol
      in case symbol_split env maker_market raw_maker_symbol of
           Inl e \<Rightarrow> (Returns (), log_line e s)
         | Inr maker_assets \<Rightarrow>
        (case symbol_split env taker_market raw_taker_symbol of
           Inl e \<Rightarrow> (Returns (), log_line e s)
         | Inr taker_assets \<Rightarrow>
        (let market_names = [(maker_market, raw_maker_symbol), (taker_market, raw_taker_symbol)]
         in case initialize_wallet env
                   {fst maker_assets, snd maker_assets, fst taker_assets, snd taker_assets} s of
              (Raises e, s1) \<Rightarrow> (Raises e, s1)
            | (Returns u, s1) \<Rightarrow>
           (let s2 = initialize_markets env market_names s1
            in case markets_getitem s2 maker_market of
                 Raises e \<Rightarrow> (Raises e, s2)
               | Returns maker \<Rightarrow>
              (case markets_getitem s2 taker_market of
                 Raises e \<Rightarrow> (Raises e, s2)
               | Returns taker \<Rightarrow>
              (let pair = CrossExchangeMarketPair
                            maker raw_maker_symbol (fst maker_assets) (snd maker_assets)
                            taker raw_taker_symbol (fst taker_assets) (snd taker_assets)
                            top_depth_tolerance;
                   s3 = s2\<lparr>market_pair := Some pair\<rparr>;
                   s4 = s3\<lparr>strategy := Some (CrossExchangeMarketMakingStrategy [pair]
                           (cm_min_profitability strategy_cm) (strategy_report_interval env)
                           cross_exchange_logging_options
                           (cm_trade_size_override strategy_cm)
                           (cm_limit_order_min_expiration strategy_cm)
                           (cm_cancel_order_threshold strategy_cm)
                           (cm_active_order_canceling strategy_cm))\<rparr>
               in (Returns (), start_clock strategy_name s4)))))))"

text \<open>The branch for \<open>arbitrage\<close>.\<close>

definition start_arbitrage ::
  "environment \<Rightarrow> string \<Rightarrow> strategy_config_map \<Rightarrow> hummingbot_application
     \<Rightarrow> unit outcome \<times> hummingbot_application" where
  "start_arbitrage env strategy_name strategy_cm s =
     (let primary_market = str_lower env (cm_primary_market strategy_cm);
          secondary_market = str_lower env (cm_secondary_market strategy_cm);
          raw_primary_symbol = str_upper env (cm_primary_market_symbol strategy_cm);
          raw_secondary_symbol = str_upper env (cm_secondary_market_symbol strategy_cm)
      in case symbol_split env primary_market raw_primary_symbol of
           Inl e \<Rightarrow> (Returns (), log_line e s)
         | Inr primary_assets \<Rightarrow>
        (case symbol_split env secondary_market raw_secondary_symbol of
           Inl e \<Rightarrow> (Returns (), log_line e s)
         | Inr secondary_assets \<Rightarrow>
        (let market_names = [(primary_market, raw_primary_symbol),
                             (secondary_market, raw_secondary_symbol)]
         in case initialize_wallet env
                   {fst primary_assets, snd primary_assets,
                    fst secondary_assets, snd secondary_assets} s of
              (Raises e, s1) \<Rightarrow> (Raises e, s1)
            | (Returns u, s1) \<Rightarrow>
           (let s2 = initialize_markets env market_names s1
            in case markets_getitem s2 primary_market of
                 Raises e \<Rightarrow> (Raises e, s2)
               | Returns primary \<Rightarrow>
              (case markets_getitem s2 secondary_market of
                 Raises e \<Rightarrow> (Raises e, s2)
               | Returns secondary \<Rightarrow>
              (let pair = ArbitrageMarketPair
                            primary raw_primary_symbol (fst primary_assets) (snd primary_assets)
                            secondary raw_secondary_symbol
                            (fst secondary_assets) (snd secondary_assets);
                   s3 = s2\<lparr>market_pair := Some pair\<rparr>;
                   s4 = s3\<lparr>strategy := Some (ArbitrageStrategy [pair]
                           (cm_min_profitability strategy_cm) [OPTION_LOG_ALL])\<rparr>
               in (Returns (), start_clock strategy_name s4)))))))"

definition start_market_making ::
  "environment \<Rightarrow> string \<Rightarrow> hummingbot_application \<Rightarrow> unit outcome \<times> hummingbot_application" where
  "start_market_making env strategy_name s =
     (let strategy_cm = get_strategy_config_map env strategy_name
      in if strategy_name = ''cross_exchange_market_making'' then
           start_cross_exchange env strategy_name strategy_cm s
         else if strategy_name = ''arbitrage'' then
           start_arbitrage env strategy_name strategy_cm s
         else (Raises NotImplementedError, s))"


section \<open>Stop and exit\<close>

text \<open>The guarded \<open>self.strategy_task.cancel()\<close> that \<open>stop\<close> and \<open>exit\<close> share.\<close>

definition cancel_strategy_task :: "hummingbot_application \<Rightarrow> hummingbot_application" where
  "cancel_strategy_task s =
     (case strategy_task s of
        None \<Rightarrow> s
      | Some t \<Rightarrow>
          if \<not> cancelled t then s\<lparr>strategy_task := Some (t\<lparr>cancel_requested := True\<rparr>)\<rparr>
          else s)"

definition stop_reporting_module :: "hummingbot_application \<Rightarrow> hummingbot_application" where
  "stop_reporting_module s =
     (case reporting_module s of
        None \<Rightarrow> s
      | Some rm \<Rightarrow> s\<lparr>reporting_module := Some (rm\<lparr>running := False\<rparr>)\<rparr>)"

text \<open>The part of \<open>stop\<close> after the cancellation of the orders.\<close>

definition wind_down :: "hummingbot_application \<Rightarrow> hummingbot_application" where
  "wind_down s =
     (let s1 = stop_reporting_module s;
          s2 = cancel_strategy_task s1
      in s2\<lparr>wallet := None, strategy_task := None, strategy := None, market_pair := None,
            clock := None\<rparr>)"

definition stop ::
  "environment \<Rightarrow> bool \<Rightarrow> hummingbot_application \<Rightarrow> unit outcome \<times> hummingbot_application" where
  "stop env skip_order_cancellation s =
     (let s1 = log_line (newline @ ''Winding down...'') s
      in if \<not> skip_order_cancellation then
           (case cancel_outstanding_orders env s1 of
              (Raises e, s2) \<Rightarrow> (Raises e, s2)
            | (Returns ok, s2) \<Rightarrow>
                (Returns (), wind_down (if ok then s2\<lparr>markets := []\<rparr> else s2)))
         else (Returns (), wind_down s1))"

definition wind_down_terminated_message :: string where
  "wind_down_terminated_message =
     ''Wind down process terminated: Failed to cancel all outstanding orders. '' @ newline @
     ''You may need to manually cancel remaining orders by logging into your chosen exchanges'' @
     newline @ newline @ ''To force exit the app, enter '' @ dquote @ ''exit -f'' @ dquote"

text \<open>
  \<open>exit\<close>, named \<open>exit_app\<close> here. \<open>force\<close> is a bool, so \<open>force is False\<close> is \<open>\<not> force\<close>.
  The one second of \<open>asyncio.sleep\<close> before \<open>self.app.exit()\<close> changes nothing in the
  application.
\<close>

definition exit_app ::
  "environment \<Rightarrow> bool \<Rightarrow> hummingbot_application \<Rightarrow> unit outcome \<times> hummingbot_application" where
  "exit_app env force s =
     (let s1 = cancel_strategy_task s
      in if force = False then
           (case cancel_outstanding_orders env s1 of
              (Raises e, s2) \<Rightarrow> (Raises e, s2)
            | (Returns ok, s2) \<Rightarrow>
                if \<not> ok then (Returns (), log_line wind_down_terminated_message s2)
                else (Returns (), s2\<lparr>app_exit_calls := app_exit_calls s2 + 1\<rparr>))
         else (Returns (), s1\<lparr>app_exit_calls := app_exit_calls s1 + 1\<rparr>))"


section \<open>The command handler and the event loop\<close>

definition not_implemented_message :: string where
  "not_implemented_message =
     ''Command not yet implemented. This feature is currently under development.''"

text \<open>The \<open>except\<close> clauses of \<open>_handle_command\<close>, in the order of the source.\<close>

definition handle_exception :: "error \<Rightarrow> hummingbot_application \<Rightarrow> hummingbot_application" where
  "handle_exception e s =
     (case e of
        InvalidCommandError msg \<Rightarrow> log_line (''Invalid command: '' @ msg) s
      | ArgumentParserError msg \<Rightarrow> log_line msg s
      | NotImplementedError \<Rightarrow> log_line not_implemented_message s
      | _ \<Rightarrow> s\<lparr>logging_records := logging_records s @ [LoggerError e]\<rparr>)"

text \<open>
  \<open>_handle_command\<close>. The parser is built in another module, so \<open>parse_args\<close> is a
  parameter: it raises, or returns no function, or returns the bound method with its
  arguments. The method is called inside the \<open>try\<close>, so only what it raises before it
  returns reaches the \<open>except\<close> clauses.
\<close>

definition handle_command ::
  "environment \<Rightarrow> (string list \<Rightarrow>
      (hummingbot_application \<Rightarrow> unit outcome \<times> hummingbot_application) option outcome)
     \<Rightarrow> string \<Rightarrow> hummingbot_application \<Rightarrow> hummingbot_application" where
  "handle_command env parse_args raw_command s =
     (let raw = str_strip env (str_lower env raw_command)
      in if placeholder_mode s then s
         else
           (let s1 = s\<lparr>logging_records := logging_records s @ [CommandHistory raw]\<rparr>
            in case parse_args (str_split env raw) of
                 Raises e \<Rightarrow> handle_exception e s1
               | Returns None \<Rightarrow> s1
               | Returns (Some f) \<Rightarrow>
                   (case f s1 of
                      (Raises e, s2) \<Rightarrow> handle_exception e s2
                    | (Returns u, s2) \<Rightarrow> s2)))"

text \<open>
  One turn of the event loop on the coroutines that \<open>start\<close> scheduled: the oldest
  \<open>start_market_making\<close> task runs to its end. An exception ends the task and stays
  with it; no code of the application awaits the task or reads its exception, so all
  that follows is the record that asyncio logs when it drops the task. No \<open>except\<close>
  clause of the application runs and nothing reaches \<open>self.app.log\<close>.
\<close>

definition run_next_task ::
  "environment \<Rightarrow> hummingbot_application \<Rightarrow> hummingbot_application" where
  "run_next_task env s =
     (case scheduled_start_market_making s of
        [] \<Rightarrow> s
      | strategy_name # rest \<Rightarrow>
          (case start_market_making env strategy_name
                  (s\<lparr>scheduled_start_market_making := rest\<rparr>) of
             (Raises e, s1) \<Rightarrow>
               s1\<lparr>task_exceptions := task_exceptions s1 @ [e],
                  logging_records := logging_records s1 @ [TaskExceptionNeverRetrieved e]\<rparr>
           | (Returns u, s1) \<Rightarrow> s1))"


section \<open>Notions used to state the properties\<close>

text \<open>The test of the loop that skips a market.\<close>

definition skips_cancel_on_exit :: "environment \<Rightarrow> string \<Rightarrow> bool" where
  "skips_cancel_on_exit env market_name =
     (\<not> on_chain_cancel_on_exit env \<and> market_name = ''radar_relay'')"

definition non_skipped_markets ::
  "environment \<Rightarrow> (string \<times> market_base option) list \<Rightarrow> (string \<times> market_base option) list" where
  "non_skipped_markets env ms = filter (\<lambda>entry. \<not> skips_cancel_on_exit env (fst entry)) ms"

text \<open>Every entry that is not skipped is a market object (not \<open>None\<close>).\<close>

definition market_objects :: "environment \<Rightarrow> (string \<times> market_base option) list \<Rightarrow> bool" where
  "market_objects env ms = list_all (\<lambda>entry. snd entry \<noteq> None) (non_skipped_markets env ms)"

text \<open>The failed results of a market's bulk cancel.\<close>

definition uncancelled_results :: "environment \<Rightarrow> market_base \<Rightarrow> cancellation_result list" where
  "uncancelled_results env m =
     filter (\<lambda>cr. \<not> success cr) (market_cancel_all env m KILL_TIMEOUT)"

text \<open>
  Every \<open>CancellationResult\<close> of every market that is not skipped has \<open>success = True\<close>.
\<close>

definition all_results_succeeded ::
  "environment \<Rightarrow> (string \<times> market_base option) list \<Rightarrow> bool" where
  "all_results_succeeded env ms =
     list_all (\<lambda>entry. case snd entry of
                          None \<Rightarrow> True
                        | Some m \<Rightarrow> list_all success (market_cancel_all env m KILL_TIMEOUT))
       (non_skipped_markets env ms)"

text \<open>The lines that report the failed order ids, market by market.\<close>

definition failure_reports ::
  "environment \<Rightarrow> (string \<times> market_base option) list \<Rightarrow> string list" where
  "failure_reports env ms =
     concat (map (\<lambda>entry. case snd entry of
                             None \<Rightarrow> []
                           | Some m \<Rightarrow>
                               if uncancelled_results env m = [] then []
                               else [failed_to_cancel_message (fst entry)
                                       (map order_id (uncancelled_results env m))])
               (non_skipped_markets env ms))"

text \<open>The \<open>cancel_all\<close> calls that a run of the operation adds to those made before.\<close>

definition new_cancel_all_calls ::
  "hummingbot_application \<Rightarrow> hummingbot_application \<Rightarrow> (string \<times> real) list" where
  "new_cancel_all_calls s s' = drop (length (cancel_all_calls s)) (cancel_all_calls s')"

text \<open>
  The two (market, symbol) pairs that \<open>start_market_making\<close> splits into assets, in the
  order of the calls: the \<open>market_names\<close> of the source.
\<close>

definition market_names_of :: "environment \<Rightarrow> string \<Rightarrow> (string \<times> string) list" where
  "market_names_of env strategy_name =
     (let strategy_cm = get_strategy_config_map env strategy_name
      in if strategy_name = ''cross_exchange_market_making'' then
           [(str_lower env (cm_maker_market strategy_cm), str_upper env (cm_maker_market_symbol strategy_cm)),
            (str_lower env (cm_taker_market strategy_cm), str_upper env (cm_taker_market_symbol strategy_cm))]
         else if strategy_name = ''arbitrage'' then
           [(str_lower env (cm_primary_market strategy_cm), str_upper env (cm_primary_market_symbol strategy_cm)),
            (str_lower env (cm_secondary_market strategy_cm), str_upper env (cm_secondary_market_symbol strategy_cm))]
         else [])"

definition split_raises :: "environment \<Rightarrow> string \<times> string \<Rightarrow> bool" where
  "split_raises env market_symbol =
     (case symbol_split env (fst market_symbol) (snd market_symbol) of
        Inl e \<Rightarrow> True
      | Inr assets \<Rightarrow> False)"

text \<open>
  The second application differs from the first at most in the lines logged and in the
  recorded \<open>cancel_all\<close> calls.
\<close>

definition logs_and_calls_only ::
  "hummingbot_application \<Rightarrow> hummingbot_application \<Rightarrow> bool" where
  "logs_and_calls_only s s' =
     (s' = s\<lparr>app_log := app_log s', cancel_all_calls := cancel_all_calls s'\<rparr>)"


section \<open>A concrete configuration and application\<close>

text \<open>
  A small configuration on which the properties below are exercised: a maker market on
  Radar Relay against a taker market on Binance, with \<open>on_chain_cancel_on_exit\<close> off.
  Binance answers a bulk cancel with one cancelled and two failed orders, Radar Relay
  with one failed order, DDEX with one cancelled order.
\<close>

definition demo_strategy_config_map :: strategy_config_map where
  "demo_strategy_config_map =
     \<lparr>cm_maker_market = ''Radar_Relay'', cm_taker_market = ''binance'',
      cm_maker_market_symbol = ''zrx-weth'', cm_taker_market_symbol = ''ZRXETH'',
      cm_min_profitability = 3 / 1000, cm_trade_size_override = 0,
      cm_limit_order_min_expiration = 130, cm_cancel_order_threshold = 5 / 100,
      cm_active_order_canceling = True, cm_top_depth_tolerance = example_rules,
      cm_primary_market = ''ddex'', cm_secondary_market = ''binance'',
      cm_primary_market_symbol = ''ZRX-WETH'', cm_secondary_market_symbol = ''zrxeth''\<rparr>"

definition demo_symbol_split :: "string \<Rightarrow> string \<Rightarrow> string + string \<times> string" where
  "demo_symbol_split market symbol =
     (if symbol = ''ZRX-WETH'' then Inr (''ZRX'', ''WETH'')
      else if symbol = ''ZRXETH'' then Inr (''ZRX'', ''ETH'')
      else Inl (''Unable to split '' @ symbol))"

definition demo_cancel_all :: "market_base \<Rightarrow> real \<Rightarrow> cancellation_result list" where
  "demo_cancel_all m timeout =
     (case m of
        BinanceMarket url key secret source symbols \<Rightarrow>
          [\<lparr>order_id = ''b-1'', success = True\<rparr>, \<lparr>order_id = ''b-2'', success = False\<rparr>,
           \<lparr>order_id = ''b-3'', success = False\<rparr>]
      | RadarRelayMarket w url symbols \<Rightarrow> [\<lparr>order_id = ''r-1'', success = False\<rparr>]
      | DDEXMarket w url source symbols \<Rightarrow> [\<lparr>order_id = ''d-1'', success = True\<rparr>])"

definition demo_environment :: environment where
  "demo_environment =
     \<lparr>on_chain_cancel_on_exit = False, ethereum_rpc_url = ''http://localhost:8545'',
      binance_api_key = ''key'', binance_api_secret = ''secret'',
      strategy_report_interval = 900, reporting_aggregation_interval = 60,
      reporting_log_interval = 60, in_memory_strategy = ''cross_exchange_market_making'',
      get_strategy_config_map = (\<lambda>strategy_name. demo_strategy_config_map),
      config_complete = True, web3_is_connected = (\<lambda>url. Some True),
      symbol_split = demo_symbol_split, get_erc20_token_addresses = (\<lambda>token_symbols. []),
      market_ready = (\<lambda>m. True), market_cancel_all = demo_cancel_all,
      format_status = (\<lambda>st. ''status''),
      str_lower = ascii_lower, str_upper = ascii_upper,
      str_strip = ascii_strip, str_split = ascii_split\<rparr>"

definition demo_account :: local_account where
  "demo_account = \<lparr>address = ''0x01'', privateKey = ''0x02''\<rparr>"

definition demo_binance :: market_base where
  "demo_binance = BinanceMarket ''http://localhost:8545'' ''key'' ''secret'' EXCHANGE_API [''ZRXETH'']"

definition demo_radar_relay :: market_base where
  "demo_radar_relay = RadarRelayMarket None ''http://localhost:8545'' [''ZRX-WETH'']"

definition demo_ddex :: market_base where
  "demo_ddex = DDEXMarket None ''http://localhost:8545'' EXCHANGE_API [''ZRX-WETH'']"

text \<open>An application with Radar Relay and Binance registered, and one with DDEX only.\<close>

definition demo_application :: hummingbot_application where
  "demo_application =
     init\<lparr>acct := Some demo_account,
          markets := [(''radar_relay'', Some demo_radar_relay), (''binance'', Some demo_binance)]\<rparr>"

definition demo_ddex_application :: hummingbot_application where
  "demo_ddex_application =
     init\<lparr>acct := Some demo_account, markets := [(''ddex'', Some demo_ddex)]\<rparr>"

text \<open>The same configuration with a taker symbol that cannot be split.\<close>

definition demo_bad_symbol_environment :: environment where
  "demo_bad_symbol_environment =
     demo_environment\<lparr>get_strategy_config_map :=
       (\<lambda>strategy_name. demo_strategy_config_map\<lparr>cm_taker_market_symbol := ''zrx''\<rparr>)\<rparr>"

text \<open>The same configuration with a strategy name that \<open>start_market_making\<close> does not know.\<close>

definition demo_unknown_strategy_environment :: environment where
  "demo_unknown_strategy_environment =
     demo_environment\<lparr>in_memory_strategy := ''pure_market_making''\<rparr>"

text \<open>A parser that knows the command \<open>start\<close> without a log level.\<close>

definition demo_parse_args ::
  "environment \<Rightarrow> string list
     \<Rightarrow> (hummingbot_application \<Rightarrow> unit outcome \<times> hummingbot_application) option outcome" where
  "demo_parse_args env args =
     (if args = [''start''] then Returns (Some (start env None))
      else if args = [] then Returns None
      else Raises (ArgumentParserError ''invalid choice''))"

text \<open>An application with an unlocked account and nothing started.\<close>

definition demo_idle_application :: hummingbot_application where
  "demo_idle_application = init\<lparr>acct := Some demo_account\<rparr>"

text \<open>
  The idle application after the command \<open>start\<close> was handled twice before the event
  loop ran any task, then after the event loop has run the first scheduled task, then
  after it has run the second.
\<close>

definition demo_two_starts :: hummingbot_application where
  "demo_two_starts =
     handle_command demo_environment (demo_parse_args demo_environment) ''start''
       (handle_command demo_environment (demo_parse_args demo_environment) ''start''
          demo_idle_application)"

definition demo_first_task_run :: hummingbot_application where
  "demo_first_task_run = run_next_task demo_environment demo_two_starts"

definition demo_second_task_run :: hummingbot_application where
  "demo_second_task_run = run_next_task demo_environment demo_first_task_run"

text \<open>
  The idle application after the command \<open>start\<close> was handled with a strategy name that
  \<open>start_market_making\<close> does not know, and after the event loop has run the task.
\<close>

definition demo_unknown_start :: hummingbot_application where
  "demo_unknown_start =
     handle_command demo_unknown_strategy_environment
       (demo_parse_args demo_unknown_strategy_environment) ''start'' demo_idle_application"

definition demo_unknown_task_run :: hummingbot_application where
  "demo_unknown_task_run = run_next_task demo_unknown_strategy_environment demo_unknown_start"


section \<open>The matcher decides prefix membership\<close>

lemma nullable_iff: "nullable r \<longleftrightarrow> [] \<in> lang r"
  by (induction r) (auto intro: star_lang.star_nil)

lemma star_lang_cons:
  "x \<in> star_lang L \<Longrightarrow> x = c # w \<Longrightarrow> \<exists>u v. w = u @ v \<and> c # u \<in> L \<and> v \<in> star_lang L"
proof (induction arbitrary: w rule: star_lang.induct)
  case star_nil
  then show ?case by simp
next
  case (star_app u v)
  show ?case
  proof (cases u)
    case Nil
    with star_app show ?thesis by simp
  next
    case (Cons d u')
    with star_app.prems have "d = c" and "w = u' @ v" by simp_all
    with Cons star_app.hyps show ?thesis by blast
  qed
qed

lemma deriv_lang: "w \<in> lang (deriv c r) \<longleftrightarrow> c # w \<in> lang r"
proof (induction r arbitrary: w)
  case (Seq r s)
  then show ?case
    by (auto simp: nullable_iff append_eq_Cons_conv Cons_eq_append_conv)
next
  case (Star r)
  show ?case
  proof
    assume "w \<in> lang (deriv c (Star r))"
    then obtain u v where uv: "w = u @ v" "u \<in> lang (deriv c r)" "v \<in> star_lang (lang r)"
      by auto
    with Star have "c # u \<in> lang r" by simp
    then have "(c # u) @ v \<in> star_lang (lang r)"
      using uv(3) by (rule star_lang.star_app)
    then show "c # w \<in> lang (Star r)" using uv(1) by simp
  next
    assume "c # w \<in> lang (Star r)"
    then have "c # w \<in> star_lang (lang r)" by simp
    from star_lang_cons [OF this refl]
    obtain u v where "w = u @ v" "c # u \<in> lang r" "v \<in> star_lang (lang r)" by blast
    with Star show "w \<in> lang (deriv c (Star r))" by auto
  qed
qed auto

text \<open>\<open>re_match\<close> holds exactly when a prefix of the string is in the pattern's language.\<close>

lemma re_match_iff: "re_match r s \<longleftrightarrow> (\<exists>u v. s = u @ v \<and> u \<in> lang r)"
proof (induction s arbitrary: r)
  case Nil
  then show ?case by (simp add: nullable_iff)
next
  case (Cons c cs)
  note IH = Cons.IH
  show ?case
  proof
    assume "re_match r (c # cs)"
    then consider "nullable r" | "re_match (deriv c r) cs" by auto
    then show "\<exists>u v. c # cs = u @ v \<and> u \<in> lang r"
    proof cases
      case 1
      then have "c # cs = [] @ (c # cs) \<and> [] \<in> lang r" by (simp add: nullable_iff)
      then show ?thesis by blast
    next
      case 2
      with IH obtain u v where "cs = u @ v" "u \<in> lang (deriv c r)" by blast
      then have "c # cs = (c # u) @ v \<and> c # u \<in> lang r" by (simp add: deriv_lang)
      then show ?thesis by blast
    qed
  next
    assume "\<exists>u v. c # cs = u @ v \<and> u \<in> lang r"
    then obtain u v where uv: "c # cs = u @ v" "u \<in> lang r" by blast
    show "re_match r (c # cs)"
    proof (cases u)
      case Nil
      with uv have "nullable r" by (simp add: nullable_iff)
      then show ?thesis by simp
    next
      case (Cons d u')
      with uv have "cs = u' @ v" "u' \<in> lang (deriv c r)" by (simp_all add: deriv_lang)
      then have "re_match (deriv c r) cs" using IH by blast
      then show ?thesis by simp
    qed
  qed
qed


section \<open>The resolved top depth tolerance\<close>

lemma top_depth_tolerance_loop_filter:
  "top_depth_tolerance_loop rules symbol t =
     (case filter (\<lambda>rule. re_match (fst rule) symbol) rules of
        [] \<Rightarrow> t
      | m # ms \<Rightarrow> snd (last (m # ms)))"
proof (induction rules arbitrary: t)
  case Nil
  show ?case by simp
next
  case (Cons rule rules)
  obtain regex tolerance_value where rule: "rule = (regex, tolerance_value)" by (cases rule)
  show ?case
    by (simp add: rule Cons.IH split: list.split)
qed

text \<open>
  C1, as stated: the resolved tolerance is the value of the first matching rule, so
  that \<open>BTCUSD\<close> resolves to 0.01 under the rules \<open>[("BTC.*", 0.01), (".*", 0.0)]\<close>. The
  loop does not stop at the first match: \<open>.*\<close> matches \<open>BTCUSD\<close> as well and overwrites
  the 0.01, so the code resolves \<open>BTCUSD\<close> to 0.
\<close>

theorem first_match_counterexample:
  "resolve_top_depth_tolerance example_rules ''BTCUSD'' = 0 \<and>
   first_match_tolerance example_rules ''BTCUSD'' = 1 / 100 \<and>
   resolve_top_depth_tolerance example_rules ''BTCUSD''
     \<noteq> first_match_tolerance example_rules ''BTCUSD''"
  by (simp add: resolve_top_depth_tolerance_def example_rules_def)

text \<open>
  C1, amended: for every sequence of rules and every symbol the resolved tolerance is
  the value of the last rule whose pattern matches the symbol, and 0 when no rule
  matches; under the rules of the example both \<open>BTCUSD\<close> and \<open>ETHUSD\<close> resolve to 0.
\<close>

theorem resolve_top_depth_tolerance_last_match:
  "resolve_top_depth_tolerance rules symbol = last_match_tolerance rules symbol \<and>
   resolve_top_depth_tolerance example_rules ''BTCUSD'' = 0 \<and>
   resolve_top_depth_tolerance example_rules ''ETHUSD'' = 0"
proof -
  have "resolve_top_depth_tolerance rules symbol = last_match_tolerance rules symbol"
    by (simp add: resolve_top_depth_tolerance_def last_match_tolerance_def
          top_depth_tolerance_loop_filter)
  moreover have "resolve_top_depth_tolerance example_rules ''BTCUSD'' = 0"
    by (simp add: resolve_top_depth_tolerance_def example_rules_def)
  moreover have "resolve_top_depth_tolerance example_rules ''ETHUSD'' = 0"
    by (simp add: resolve_top_depth_tolerance_def example_rules_def)
  ultimately show ?thesis by simp
qed


section \<open>The loop that cancels the orders\<close>

lemma logs_and_calls_only_refl: "logs_and_calls_only s s"
  by (simp add: logs_and_calls_only_def)

lemma logs_and_calls_only_trans:
  "logs_and_calls_only s s1 \<Longrightarrow> logs_and_calls_only s1 s2 \<Longrightarrow> logs_and_calls_only s s2"
proof -
  assume a: "logs_and_calls_only s s1" and b: "logs_and_calls_only s1 s2"
  from a have "s1 = s\<lparr>app_log := app_log s1, cancel_all_calls := cancel_all_calls s1\<rparr>"
    by (simp add: logs_and_calls_only_def)
  moreover from b have "s2 = s1\<lparr>app_log := app_log s2, cancel_all_calls := cancel_all_calls s2\<rparr>"
    by (simp add: logs_and_calls_only_def)
  ultimately have "s2 = s\<lparr>app_log := app_log s1, cancel_all_calls := cancel_all_calls s1\<rparr>
      \<lparr>app_log := app_log s2, cancel_all_calls := cancel_all_calls s2\<rparr>" by simp
  then show ?thesis by (simp add: logs_and_calls_only_def)
qed

lemma logs_and_calls_only_log_line: "logs_and_calls_only s (log_line msg s)"
  by (simp add: logs_and_calls_only_def log_line_def)

lemma logs_and_calls_only_call: "logs_and_calls_only s (s\<lparr>cancel_all_calls := c\<rparr>)"
  by (simp add: logs_and_calls_only_def)

lemma cancel_loop_skip:
  "skips_cancel_on_exit env market_name \<Longrightarrow>
     cancel_loop env ((market_name, market) # rest) ok s = cancel_loop env rest ok s"
  by (simp add: skips_cancel_on_exit_def)

lemma cancel_loop_none:
  "\<not> skips_cancel_on_exit env market_name \<Longrightarrow>
     cancel_loop env ((market_name, None) # rest) ok s = (Raises AttributeError, s)"
  by (auto simp add: skips_cancel_on_exit_def)

lemma cancel_loop_some:
  "\<not> skips_cancel_on_exit env market_name \<Longrightarrow>
     cancel_loop env ((market_name, Some m) # rest) ok s =
       cancel_loop env rest (ok \<and> uncancelled_results env m = [])
         (if uncancelled_results env m = [] then
            s\<lparr>cancel_all_calls := cancel_all_calls s @ [(market_name, KILL_TIMEOUT)]\<rparr>
          else log_line (failed_to_cancel_message market_name
                 (map order_id (uncancelled_results env m)))
                 (s\<lparr>cancel_all_calls := cancel_all_calls s @ [(market_name, KILL_TIMEOUT)]\<rparr>))"
  by (auto simp add: skips_cancel_on_exit_def uncancelled_results_def Let_def)

lemma cancel_loop_frame: "logs_and_calls_only s (snd (cancel_loop env ms ok s))"
proof (induction ms arbitrary: ok s)
  case Nil
  show ?case by (simp add: logs_and_calls_only_refl)
next
  case (Cons entry ms)
  obtain market_name market where entry: "entry = (market_name, market)" by (cases entry)
  show ?case
  proof (cases "skips_cancel_on_exit env market_name")
    case True
    then show ?thesis unfolding entry by (simp only: cancel_loop_skip Cons.IH)
  next
    case False
    show ?thesis
    proof (cases market)
      case None
      with False show ?thesis unfolding entry
        by (simp add: cancel_loop_none logs_and_calls_only_refl del: cancel_loop.simps)
    next
      case (Some m)
      let ?s1 = "s\<lparr>cancel_all_calls := cancel_all_calls s @ [(market_name, KILL_TIMEOUT)]\<rparr>"
      let ?s2 = "if uncancelled_results env m = [] then ?s1
                 else log_line (failed_to_cancel_message market_name
                        (map order_id (uncancelled_results env m))) ?s1"
      have "logs_and_calls_only s ?s1" by (rule logs_and_calls_only_call)
      moreover have "logs_and_calls_only ?s1 ?s2"
        by (simp add: logs_and_calls_only_refl logs_and_calls_only_log_line)
      ultimately have "logs_and_calls_only s ?s2" by (rule logs_and_calls_only_trans)
      moreover have "logs_and_calls_only ?s2 (snd (cancel_loop env ms (ok \<and> uncancelled_results env m = []) ?s2))"
        by (rule Cons.IH)
      ultimately have "logs_and_calls_only s (snd (cancel_loop env ms (ok \<and> uncancelled_results env m = []) ?s2))"
        by (rule logs_and_calls_only_trans)
      then show ?thesis unfolding entry Some using False
        by (simp add: cancel_loop_some del: cancel_loop.simps)
    qed
  qed
qed

lemma non_skipped_markets_Cons:
  "non_skipped_markets env ((market_name, market) # ms) =
     (if skips_cancel_on_exit env market_name then non_skipped_markets env ms
      else (market_name, market) # non_skipped_markets env ms)"
  by (simp add: non_skipped_markets_def)

lemma uncancelled_results_empty:
  "uncancelled_results env m = [] \<longleftrightarrow> list_all success (market_cancel_all env m KILL_TIMEOUT)"
  by (simp add: uncancelled_results_def filter_empty_conv list_all_iff)

lemma cancel_loop_flag:
  "market_objects env ms \<Longrightarrow>
     fst (cancel_loop env ms ok s) = Returns (ok \<and> all_results_succeeded env ms)"
proof (induction ms arbitrary: ok s)
  case Nil
  show ?case by (simp add: all_results_succeeded_def non_skipped_markets_def)
next
  case (Cons entry ms)
  obtain market_name market where entry: "entry = (market_name, market)" by (cases entry)
  show ?case
  proof (cases "skips_cancel_on_exit env market_name")
    case True
    with Cons.prems have "market_objects env ms"
      by (simp add: market_objects_def entry non_skipped_markets_Cons)
    with True Cons.IH show ?thesis
      by (simp add: entry cancel_loop_skip all_results_succeeded_def non_skipped_markets_Cons
            del: cancel_loop.simps)
  next
    case False
    with Cons.prems obtain m where m: "market = Some m" and objs: "market_objects env ms"
      by (auto simp add: market_objects_def entry non_skipped_markets_Cons)
    from False objs Cons.IH show ?thesis
      by (auto simp add: entry m cancel_loop_some all_results_succeeded_def
            non_skipped_markets_Cons uncancelled_results_empty simp del: cancel_loop.simps)
  qed
qed

lemma cancel_loop_calls:
  "market_objects env ms \<Longrightarrow>
     cancel_all_calls (snd (cancel_loop env ms ok s)) =
       cancel_all_calls s @ map (\<lambda>entry. (fst entry, KILL_TIMEOUT)) (non_skipped_markets env ms)"
proof (induction ms arbitrary: ok s)
  case Nil
  show ?case by (simp add: non_skipped_markets_def)
next
  case (Cons entry ms)
  obtain market_name market where entry: "entry = (market_name, market)" by (cases entry)
  show ?case
  proof (cases "skips_cancel_on_exit env market_name")
    case True
    with Cons.prems have "market_objects env ms"
      by (simp add: market_objects_def entry non_skipped_markets_Cons)
    with True Cons.IH show ?thesis
      by (simp add: entry cancel_loop_skip non_skipped_markets_Cons del: cancel_loop.simps)
  next
    case False
    with Cons.prems obtain m where m: "market = Some m" and objs: "market_objects env ms"
      by (auto simp add: market_objects_def entry non_skipped_markets_Cons)
    from False objs Cons.IH show ?thesis
      by (simp add: entry m cancel_loop_some non_skipped_markets_Cons log_line_def
            del: cancel_loop.simps)
  qed
qed

lemma failure_reports_Cons:
  "failure_reports env ((market_name, market) # ms) =
     (if skips_cancel_on_exit env market_name then failure_reports env ms
      else (case market of
              None \<Rightarrow> []
            | Some m \<Rightarrow>
                if uncancelled_results env m = [] then []
                else [failed_to_cancel_message market_name
                        (map order_id (uncancelled_results env m))]) @ failure_reports env ms)"
  by (simp add: failure_reports_def non_skipped_markets_Cons split: option.split)

lemma cancel_loop_log:
  "market_objects env ms \<Longrightarrow>
     app_log (snd (cancel_loop env ms ok s)) = app_log s @ failure_reports env ms"
proof (induction ms arbitrary: ok s)
  case Nil
  show ?case by (simp add: failure_reports_def non_skipped_markets_def)
next
  case (Cons entry ms)
  obtain market_name market where entry: "entry = (market_name, market)" by (cases entry)
  show ?case
  proof (cases "skips_cancel_on_exit env market_name")
    case True
    with Cons.prems have "market_objects env ms"
      by (simp add: market_objects_def entry non_skipped_markets_Cons)
    with True Cons.IH show ?thesis
      by (simp add: entry cancel_loop_skip failure_reports_Cons del: cancel_loop.simps)
  next
    case False
    with Cons.prems obtain m where m: "market = Some m" and objs: "market_objects env ms"
      by (auto simp add: market_objects_def entry non_skipped_markets_Cons)
    from False objs Cons.IH show ?thesis
      by (simp add: entry m cancel_loop_some failure_reports_Cons log_line_def
            del: cancel_loop.simps)
  qed
qed

lemma cancel_loop_flag_state: "fst (cancel_loop env ms ok s) = fst (cancel_loop env ms ok s')"
proof (induction ms arbitrary: ok s s')
  case Nil
  show ?case by simp
next
  case (Cons entry ms)
  obtain market_name market where entry: "entry = (market_name, market)" by (cases entry)
  show ?case
  proof (cases "skips_cancel_on_exit env market_name")
    case True
    then show ?thesis using Cons.IH
      by (simp add: entry cancel_loop_skip del: cancel_loop.simps)
  next
    case False
    show ?thesis
    proof (cases market)
      case None
      with False show ?thesis by (simp add: entry cancel_loop_none del: cancel_loop.simps)
    next
      case (Some m)
      with False show ?thesis using Cons.IH
        by (simp add: entry cancel_loop_some del: cancel_loop.simps)
    qed
  qed
qed

lemma cancel_loop_flag_non_skipped:
  "fst (cancel_loop env (non_skipped_markets env ms) ok s) = fst (cancel_loop env ms ok s)"
proof (induction ms arbitrary: ok s)
  case Nil
  show ?case by (simp add: non_skipped_markets_def)
next
  case (Cons entry ms)
  obtain market_name market where entry: "entry = (market_name, market)" by (cases entry)
  show ?case
  proof (cases "skips_cancel_on_exit env market_name")
    case True
    then show ?thesis using Cons.IH
      by (simp add: entry cancel_loop_skip non_skipped_markets_Cons del: cancel_loop.simps)
  next
    case False
    show ?thesis
    proof (cases market)
      case None
      with False show ?thesis
        by (simp add: entry cancel_loop_none non_skipped_markets_Cons del: cancel_loop.simps)
    next
      case (Some m)
      with False show ?thesis using Cons.IH
        by (simp add: entry cancel_loop_some non_skipped_markets_Cons del: cancel_loop.simps)
    qed
  qed
qed


section \<open>Cancelling the outstanding orders: the result\<close>

lemma cancel_outstanding_orders_fst:
  "fst (cancel_outstanding_orders env s) =
     fst (cancel_loop env (markets s) True (log_line ''Cancelling outstanding orders...'' s))"
  by (simp add: cancel_outstanding_orders_def Let_def log_line_def
        split: prod.split outcome.split)

lemma cancel_outstanding_orders_snd:
  "snd (cancel_outstanding_orders env s) =
     (let r = cancel_loop env (markets s) True (log_line ''Cancelling outstanding orders...'' s)
      in if fst r = Returns True then log_line ''All outstanding orders cancelled.'' (snd r)
         else snd r)"
  by (simp add: cancel_outstanding_orders_def Let_def log_line_def
        split: prod.split outcome.split)

lemma cancel_outstanding_orders_frame:
  "logs_and_calls_only s (snd (cancel_outstanding_orders env s))"
proof -
  let ?s1 = "log_line ''Cancelling outstanding orders...'' s"
  let ?r = "cancel_loop env (markets s) True ?s1"
  have "logs_and_calls_only s ?s1" by (rule logs_and_calls_only_log_line)
  moreover have "logs_and_calls_only ?s1 (snd ?r)" by (rule cancel_loop_frame)
  ultimately have a: "logs_and_calls_only s (snd ?r)" by (rule logs_and_calls_only_trans)
  have "logs_and_calls_only (snd ?r) (log_line ''All outstanding orders cancelled.'' (snd ?r))"
    by (rule logs_and_calls_only_log_line)
  with a have "logs_and_calls_only s (log_line ''All outstanding orders cancelled.'' (snd ?r))"
    by (rule logs_and_calls_only_trans)
  with a show ?thesis by (simp add: cancel_outstanding_orders_snd Let_def)
qed

lemma cancel_outstanding_orders_flag:
  "market_objects env (markets s) \<Longrightarrow>
     fst (cancel_outstanding_orders env s) = Returns (all_results_succeeded env (markets s))"
  by (simp add: cancel_outstanding_orders_fst cancel_loop_flag)

lemma cancel_outstanding_orders_flag_state:
  "markets s = markets s' \<Longrightarrow>
     fst (cancel_outstanding_orders env s) = fst (cancel_outstanding_orders env s')"
  by (simp add: cancel_outstanding_orders_fst) (rule cancel_loop_flag_state)

lemma cancel_outstanding_orders_calls:
  "market_objects env (markets s) \<Longrightarrow>
     cancel_all_calls (snd (cancel_outstanding_orders env s)) =
       cancel_all_calls s @
       map (\<lambda>entry. (fst entry, KILL_TIMEOUT)) (non_skipped_markets env (markets s))"
  by (simp add: cancel_outstanding_orders_snd Let_def cancel_loop_calls log_line_def)

lemma cancel_outstanding_orders_log:
  "market_objects env (markets s) \<Longrightarrow>
     app_log (snd (cancel_outstanding_orders env s)) =
       app_log s @ [''Cancelling outstanding orders...''] @ failure_reports env (markets s) @
       (if all_results_succeeded env (markets s) then [''All outstanding orders cancelled.'']
        else [])"
  by (simp add: cancel_outstanding_orders_snd Let_def cancel_loop_log cancel_loop_flag log_line_def)

lemma cancel_outstanding_orders_no_markets:
  "markets s = [] \<Longrightarrow>
     cancel_outstanding_orders env s =
       (Returns True, log_line ''All outstanding orders cancelled.''
                        (log_line ''Cancelling outstanding orders...'' s))"
  by (simp add: cancel_outstanding_orders_def Let_def log_line_def)

lemma all_results_succeeded_iff:
  "all_results_succeeded env ms \<longleftrightarrow>
     (\<forall>entry \<in> set (non_skipped_markets env ms). \<forall>m. snd entry = Some m \<longrightarrow>
        (\<forall>cr \<in> set (market_cancel_all env m KILL_TIMEOUT). success cr))"
  by (auto simp add: all_results_succeeded_def list_all_iff split: option.splits)

lemma failure_reports_mem:
  "entry \<in> set (non_skipped_markets env ms) \<Longrightarrow> snd entry = Some m \<Longrightarrow>
     uncancelled_results env m \<noteq> [] \<Longrightarrow>
     failed_to_cancel_message (fst entry) (map order_id (uncancelled_results env m))
       \<in> set (failure_reports env ms)"
  by (force simp add: failure_reports_def)

lemma join_contains: "x \<in> set xs \<Longrightarrow> \<exists>pre post. join sep xs = pre @ x @ post"
proof (induction sep xs rule: join.induct)
  case (1 sep)
  then show ?case by simp
next
  case (2 sep y)
  then have "join sep [y] = [] @ x @ []" by simp
  then show ?case by blast
next
  case (3 sep a b ys)
  show ?case
  proof (cases "x = a")
    case True
    then have "join sep (a # b # ys) = [] @ x @ (sep @ join sep (b # ys))" by simp
    then show ?thesis by blast
  next
    case False
    with "3.prems" have "x \<in> set (b # ys)" by simp
    with "3.IH" obtain pre post where "join sep (b # ys) = pre @ x @ post" by blast
    then have "join sep (a # b # ys) = (a @ sep @ pre) @ x @ post" by simp
    then show ?thesis by blast
  qed
qed

lemma failed_to_cancel_message_text:
  "failed_to_cancel_message market_name ids =
     [CHR 0x0A] @ ''Failed to cancel the following orders on '' @ market_name @ '':'' @
     [CHR 0x0A] @ join [CHR 0x0A] ids"
  by (simp add: failed_to_cancel_message_def newline_def)

lemma failed_to_cancel_message_contains:
  assumes "x \<in> set ids"
  shows "\<exists>pre post. failed_to_cancel_message market_name ids = pre @ x @ post"
proof -
  from join_contains [OF assms] obtain pre post where
    "join [CHR 0x0A] ids = pre @ x @ post" by blast
  then have "failed_to_cancel_message market_name ids =
      ([CHR 0x0A] @ ''Failed to cancel the following orders on '' @ market_name @ '':'' @
       [CHR 0x0A] @ pre) @ x @ post"
    by (simp add: failed_to_cancel_message_text)
  then show ?thesis by blast
qed

text \<open>
  C2: when every registered market that is not skipped is a market object,
  \<open>_cancel_outstanding_orders\<close> returns \<open>True\<close> exactly when every \<open>CancellationResult\<close>
  of every such market has \<open>success = True\<close>, and it returns \<open>False\<close> otherwise; for a
  market with a failed result it returns \<open>False\<close> and the log holds the line made of a
  newline, the words "Failed to cancel the following orders on", the market's name, a
  colon, a newline, and the order ids of exactly the failed results of that market, in
  their order and separated by newlines; in particular the order id of every failed
  result stands in that line.
\<close>

theorem cancel_outstanding_orders_success_iff:
  assumes objs: "market_objects env (markets s)"
  shows "(fst (cancel_outstanding_orders env s) = Returns True \<longleftrightarrow>
            (\<forall>entry \<in> set (non_skipped_markets env (markets s)). \<forall>m. snd entry = Some m \<longrightarrow>
               (\<forall>cr \<in> set (market_cancel_all env m KILL_TIMEOUT). success cr))) \<and>
         (fst (cancel_outstanding_orders env s) \<noteq> Returns True \<longrightarrow>
            fst (cancel_outstanding_orders env s) = Returns False) \<and>
         (\<forall>entry \<in> set (non_skipped_markets env (markets s)). \<forall>m. snd entry = Some m \<longrightarrow>
            (\<exists>cr \<in> set (market_cancel_all env m KILL_TIMEOUT). \<not> success cr) \<longrightarrow>
              fst (cancel_outstanding_orders env s) = Returns False \<and>
              (\<exists>line \<in> set (app_log (snd (cancel_outstanding_orders env s))).
                 line =
                   [CHR 0x0A] @ ''Failed to cancel the following orders on '' @ fst entry @
                   '':'' @ [CHR 0x0A] @
                   join [CHR 0x0A]
                     (map order_id
                        (filter (\<lambda>cr. \<not> success cr) (market_cancel_all env m KILL_TIMEOUT))) \<and>
                 (\<forall>cr \<in> set (market_cancel_all env m KILL_TIMEOUT). \<not> success cr \<longrightarrow>
                    (\<exists>pre post. line = pre @ order_id cr @ post))))"
proof (intro conjI ballI allI impI)
  show "fst (cancel_outstanding_orders env s) = Returns True \<longleftrightarrow>
          (\<forall>entry \<in> set (non_skipped_markets env (markets s)). \<forall>m. snd entry = Some m \<longrightarrow>
             (\<forall>cr \<in> set (market_cancel_all env m KILL_TIMEOUT). success cr))"
    using objs by (simp add: cancel_outstanding_orders_flag all_results_succeeded_iff)
next
  assume "fst (cancel_outstanding_orders env s) \<noteq> Returns True"
  then show "fst (cancel_outstanding_orders env s) = Returns False"
    using objs by (simp add: cancel_outstanding_orders_flag)
next
  fix entry m
  assume entry: "entry \<in> set (non_skipped_markets env (markets s))" "snd entry = Some m"
    and some: "\<exists>cr \<in> set (market_cancel_all env m KILL_TIMEOUT). \<not> success cr"
  from some have failed: "uncancelled_results env m \<noteq> []"
    by (auto simp add: uncancelled_results_def filter_empty_conv)
  then have "\<not> list_all success (market_cancel_all env m KILL_TIMEOUT)"
    by (simp add: uncancelled_results_empty)
  with entry have "\<not> all_results_succeeded env (markets s)"
    by (auto simp add: all_results_succeeded_iff list_all_iff)
  with objs show "fst (cancel_outstanding_orders env s) = Returns False"
    by (simp add: cancel_outstanding_orders_flag)
  let ?ids = "map order_id (uncancelled_results env m)"
  let ?line = "failed_to_cancel_message (fst entry) ?ids"
  from entry failed have "?line \<in> set (failure_reports env (markets s))"
    by (rule failure_reports_mem)
  with objs have logged: "?line \<in> set (app_log (snd (cancel_outstanding_orders env s)))"
    by (simp add: cancel_outstanding_orders_log)
  have shape: "?line =
      [CHR 0x0A] @ ''Failed to cancel the following orders on '' @ fst entry @
      '':'' @ [CHR 0x0A] @
      join [CHR 0x0A]
        (map order_id (filter (\<lambda>cr. \<not> success cr) (market_cancel_all env m KILL_TIMEOUT)))"
    by (simp add: failed_to_cancel_message_text uncancelled_results_def)
  have ids: "\<forall>cr \<in> set (market_cancel_all env m KILL_TIMEOUT). \<not> success cr \<longrightarrow>
      (\<exists>pre post. ?line = pre @ order_id cr @ post)"
  proof (intro ballI impI)
    fix cr
    assume "cr \<in> set (market_cancel_all env m KILL_TIMEOUT)" and "\<not> success cr"
    then have "order_id cr \<in> set ?ids" by (simp add: uncancelled_results_def)
    then show "\<exists>pre post. ?line = pre @ order_id cr @ post"
      by (rule failed_to_cancel_message_contains)
  qed
  from logged shape ids
  show "\<exists>line \<in> set (app_log (snd (cancel_outstanding_orders env s))).
      line =
        [CHR 0x0A] @ ''Failed to cancel the following orders on '' @ fst entry @
        '':'' @ [CHR 0x0A] @
        join [CHR 0x0A]
          (map order_id (filter (\<lambda>cr. \<not> success cr) (market_cancel_all env m KILL_TIMEOUT))) \<and>
      (\<forall>cr \<in> set (market_cancel_all env m KILL_TIMEOUT). \<not> success cr \<longrightarrow>
         (\<exists>pre post. line = pre @ order_id cr @ post))"
    by (intro bexI [of _ ?line] conjI)
qed

lemma demo_non_skipped:
  "non_skipped_markets demo_environment (markets demo_application) = [(''binance'', Some demo_binance)]"
  by (simp add: non_skipped_markets_def skips_cancel_on_exit_def demo_environment_def
        demo_application_def init_def)

lemma demo_uncancelled:
  "uncancelled_results demo_environment demo_binance =
     [\<lparr>order_id = ''b-2'', success = False\<rparr>, \<lparr>order_id = ''b-3'', success = False\<rparr>]"
  by (simp add: uncancelled_results_def demo_environment_def demo_cancel_all_def demo_binance_def)

lemma demo_binance_results:
  "market_cancel_all demo_environment demo_binance KILL_TIMEOUT =
     [\<lparr>order_id = ''b-1'', success = True\<rparr>, \<lparr>order_id = ''b-2'', success = False\<rparr>,
      \<lparr>order_id = ''b-3'', success = False\<rparr>]"
  by (simp add: demo_environment_def demo_cancel_all_def demo_binance_def)

theorem cancel_outstanding_orders_success_iff_witness:
  "market_objects demo_environment (markets demo_application) \<and>
   fst (cancel_outstanding_orders demo_environment demo_application) = Returns False \<and>
   [CHR 0x0A] @ ''Failed to cancel the following orders on binance:'' @
   [CHR 0x0A] @ ''b-2'' @ [CHR 0x0A] @ ''b-3''
     \<in> set (app_log (snd (cancel_outstanding_orders demo_environment demo_application)))"
proof -
  have objs: "market_objects demo_environment (markets demo_application)"
    by (simp add: market_objects_def demo_non_skipped)
  have mem: "(''binance'', Some demo_binance)
      \<in> set (non_skipped_markets demo_environment (markets demo_application))"
    by (simp add: demo_non_skipped)
  have some: "\<exists>cr \<in> set (market_cancel_all demo_environment demo_binance KILL_TIMEOUT).
      \<not> success cr"
    by (simp add: demo_binance_results)
  from cancel_outstanding_orders_success_iff [OF objs] mem some
  have "fst (cancel_outstanding_orders demo_environment demo_application) = Returns False \<and>
      (\<exists>line \<in> set (app_log (snd (cancel_outstanding_orders demo_environment demo_application))).
         line =
           [CHR 0x0A] @ ''Failed to cancel the following orders on '' @
           fst (''binance'', Some demo_binance) @ '':'' @ [CHR 0x0A] @
           join [CHR 0x0A]
             (map order_id
                (filter (\<lambda>cr. \<not> success cr)
                   (market_cancel_all demo_environment demo_binance KILL_TIMEOUT))) \<and>
         (\<forall>cr \<in> set (market_cancel_all demo_environment demo_binance KILL_TIMEOUT).
            \<not> success cr \<longrightarrow> (\<exists>pre post. line = pre @ order_id cr @ post)))"
    by (metis snd_conv)
  then have "fst (cancel_outstanding_orders demo_environment demo_application) = Returns False"
    and "\<exists>line \<in> set (app_log (snd (cancel_outstanding_orders demo_environment demo_application))).
         line =
           [CHR 0x0A] @ ''Failed to cancel the following orders on binance:'' @
           [CHR 0x0A] @ ''b-2'' @ [CHR 0x0A] @ ''b-3''"
    by (simp_all add: demo_binance_results)
  with objs show ?thesis by simp
qed


lemma filter_key_distinct:
  "distinct (map fst xs) \<Longrightarrow> entry \<in> set xs \<Longrightarrow> filter (\<lambda>e. fst e = fst entry) xs = [entry]"
proof (induction xs)
  case Nil
  then show ?case by simp
next
  case (Cons x xs)
  show ?case
  proof (cases "x = entry")
    case True
    with Cons.prems have "fst entry \<notin> fst ` set xs" by simp
    then have "\<forall>e \<in> set xs. fst e \<noteq> fst entry" by (metis imageI)
    then have "filter (\<lambda>e. fst e = fst entry) xs = []" by (simp add: filter_empty_conv)
    with True show ?thesis by simp
  next
    case False
    with Cons.prems have mem: "entry \<in> set xs" and "distinct (map fst xs)" by simp_all
    then have IH: "filter (\<lambda>e. fst e = fst entry) xs = [entry]" by (rule Cons.IH [rotated])
    from Cons.prems have "fst x \<notin> fst ` set xs" by simp
    with mem have "fst x \<noteq> fst entry" by (metis imageI)
    with IH show ?thesis by simp
  qed
qed

lemma calls_of_market:
  assumes "distinct (map fst ms)" and "entry \<in> set ms" and "fst entry \<noteq> ''radar_relay''"
  shows "filter (\<lambda>c. fst c = fst entry)
           (map (\<lambda>e. (fst e, KILL_TIMEOUT)) (non_skipped_markets env ms)) = [(fst entry, KILL_TIMEOUT)]"
proof -
  have "filter (\<lambda>c. fst c = fst entry) (map (\<lambda>e. (fst e, KILL_TIMEOUT)) (non_skipped_markets env ms))
        = map (\<lambda>e. (fst e, KILL_TIMEOUT))
            (filter (\<lambda>e. \<not> skips_cancel_on_exit env (fst e)) (filter (\<lambda>e. fst e = fst entry) ms))"
    by (simp add: non_skipped_markets_def filter_map comp_def conj_commute)
  also have "filter (\<lambda>e. fst e = fst entry) ms = [entry]"
    using assms(1,2) by (rule filter_key_distinct)
  finally show ?thesis using assms(3) by (simp add: skips_cancel_on_exit_def)
qed

lemma non_skipped_markets_radar_relay:
  "\<not> on_chain_cancel_on_exit env \<Longrightarrow>
     non_skipped_markets env ms = filter (\<lambda>entry. fst entry \<noteq> ''radar_relay'') ms"
  by (simp add: non_skipped_markets_def skips_cancel_on_exit_def)

lemma KILL_TIMEOUT_value: "KILL_TIMEOUT = 5"
  by (simp add: KILL_TIMEOUT_def)

text \<open>
  C3: with the keys of the \<open>markets\<close> dict distinct and every market that is not skipped
  a market object: when \<open>on_chain_cancel_on_exit\<close> is false, no \<open>cancel_all\<close> call goes
  to the market named \<open>radar_relay\<close> and the returned flag is the one obtained with that
  entry removed; and every registered market with another name receives exactly one
  \<open>cancel_all\<close> call, with the timeout \<open>KILL_TIMEOUT\<close> = 5.
\<close>

theorem cancel_skips_radar_relay_only:
  assumes keys: "distinct (map fst (markets s))"
    and objs: "market_objects env (markets s)"
  shows "(\<not> on_chain_cancel_on_exit env \<longrightarrow>
            (\<forall>c \<in> set (new_cancel_all_calls s (snd (cancel_outstanding_orders env s))).
               fst c \<noteq> ''radar_relay'') \<and>
            fst (cancel_outstanding_orders env s) =
              fst (cancel_outstanding_orders env
                     (s\<lparr>markets := filter (\<lambda>entry. fst entry \<noteq> ''radar_relay'') (markets s)\<rparr>))) \<and>
         (\<forall>entry \<in> set (markets s). fst entry \<noteq> ''radar_relay'' \<longrightarrow>
            filter (\<lambda>c. fst c = fst entry)
              (new_cancel_all_calls s (snd (cancel_outstanding_orders env s))) = [(fst entry, 5)])"
proof -
  have calls: "new_cancel_all_calls s (snd (cancel_outstanding_orders env s)) =
      map (\<lambda>e. (fst e, KILL_TIMEOUT)) (non_skipped_markets env (markets s))"
    using objs by (simp add: new_cancel_all_calls_def cancel_outstanding_orders_calls)
  have skipped: "\<forall>c \<in> set (new_cancel_all_calls s (snd (cancel_outstanding_orders env s))).
      fst c \<noteq> ''radar_relay''" if off: "\<not> on_chain_cancel_on_exit env"
    using off by (auto simp add: calls non_skipped_markets_radar_relay)
  have flag: "fst (cancel_outstanding_orders env s) =
      fst (cancel_outstanding_orders env
             (s\<lparr>markets := filter (\<lambda>entry. fst entry \<noteq> ''radar_relay'') (markets s)\<rparr>))"
    if off: "\<not> on_chain_cancel_on_exit env"
  proof -
    let ?s1 = "log_line ''Cancelling outstanding orders...'' s"
    let ?t = "s\<lparr>markets := filter (\<lambda>entry. fst entry \<noteq> ''radar_relay'') (markets s)\<rparr>"
    let ?t1 = "log_line ''Cancelling outstanding orders...'' ?t"
    have "fst (cancel_outstanding_orders env s) = fst (cancel_loop env (markets s) True ?s1)"
      by (rule cancel_outstanding_orders_fst)
    also have "\<dots> = fst (cancel_loop env (non_skipped_markets env (markets s)) True ?s1)"
      by (rule cancel_loop_flag_non_skipped [symmetric])
    also have "\<dots> = fst (cancel_loop env (markets ?t) True ?s1)"
      using off by (simp add: non_skipped_markets_radar_relay)
    also have "\<dots> = fst (cancel_loop env (markets ?t) True ?t1)"
      by (rule cancel_loop_flag_state)
    also have "\<dots> = fst (cancel_outstanding_orders env ?t)"
      by (rule cancel_outstanding_orders_fst [symmetric])
    finally show ?thesis .
  qed
  have once: "\<forall>entry \<in> set (markets s). fst entry \<noteq> ''radar_relay'' \<longrightarrow>
      filter (\<lambda>c. fst c = fst entry)
        (new_cancel_all_calls s (snd (cancel_outstanding_orders env s))) = [(fst entry, 5)]"
    using keys by (auto simp add: calls calls_of_market KILL_TIMEOUT_value [symmetric])
  from skipped flag once show ?thesis by blast
qed

theorem cancel_skips_radar_relay_only_witness:
  "distinct (map fst (markets demo_application)) \<and>
   market_objects demo_environment (markets demo_application) \<and>
   \<not> on_chain_cancel_on_exit demo_environment \<and>
   new_cancel_all_calls demo_application
     (snd (cancel_outstanding_orders demo_environment demo_application)) = [(''binance'', 5)] \<and>
   fst (cancel_outstanding_orders demo_environment demo_application) =
     fst (cancel_outstanding_orders demo_environment
            (demo_application\<lparr>markets := [(''binance'', Some demo_binance)]\<rparr>))"
proof -
  have keys: "distinct (map fst (markets demo_application))"
    by (simp add: demo_application_def init_def)
  have objs: "market_objects demo_environment (markets demo_application)"
    by (simp add: market_objects_def demo_non_skipped)
  have off: "\<not> on_chain_cancel_on_exit demo_environment"
    by (simp add: demo_environment_def)
  have filtered: "filter (\<lambda>entry. fst entry \<noteq> ''radar_relay'') (markets demo_application) =
      [(''binance'', Some demo_binance)]"
    by (simp add: demo_application_def init_def)
  have calls: "new_cancel_all_calls demo_application
      (snd (cancel_outstanding_orders demo_environment demo_application)) = [(''binance'', 5)]"
    using objs
    by (simp add: new_cancel_all_calls_def cancel_outstanding_orders_calls demo_non_skipped
          KILL_TIMEOUT_def)
  from cancel_skips_radar_relay_only [OF keys objs] off
  have "fst (cancel_outstanding_orders demo_environment demo_application) =
      fst (cancel_outstanding_orders demo_environment
             (demo_application\<lparr>markets :=
                filter (\<lambda>entry. fst entry \<noteq> ''radar_relay'') (markets demo_application)\<rparr>))"
    by blast
  with keys objs off calls show ?thesis by (simp add: filtered)
qed


section \<open>Exit, stop and start\<close>

lemma logs_and_calls_only_fields:
  assumes "logs_and_calls_only s s'"
  shows "markets s' = markets s" and "app_exit_calls s' = app_exit_calls s"
    and "strategy_task s' = strategy_task s" and "reporting_module s' = reporting_module s"
proof -
  let ?t = "s\<lparr>app_log := app_log s', cancel_all_calls := cancel_all_calls s'\<rparr>"
  from assms have eq: "s' = ?t" by (simp add: logs_and_calls_only_def)
  have "markets s' = markets ?t" using eq by (rule arg_cong)
  then show "markets s' = markets s" by simp
  have "app_exit_calls s' = app_exit_calls ?t" using eq by (rule arg_cong)
  then show "app_exit_calls s' = app_exit_calls s" by simp
  have "strategy_task s' = strategy_task ?t" using eq by (rule arg_cong)
  then show "strategy_task s' = strategy_task s" by simp
  have "reporting_module s' = reporting_module ?t" using eq by (rule arg_cong)
  then show "reporting_module s' = reporting_module s" by simp
qed

lemma cancel_outstanding_orders_markets:
  "markets (snd (cancel_outstanding_orders env s)) = markets s"
  using cancel_outstanding_orders_frame by (rule logs_and_calls_only_fields(1))

lemma cancel_outstanding_orders_app_exit_calls:
  "app_exit_calls (snd (cancel_outstanding_orders env s)) = app_exit_calls s"
  using cancel_outstanding_orders_frame by (rule logs_and_calls_only_fields(2))

lemma cancel_strategy_task_fields:
  "markets (cancel_strategy_task s) = markets s"
  "app_exit_calls (cancel_strategy_task s) = app_exit_calls s"
  "app_log (cancel_strategy_task s) = app_log s"
  "cancel_all_calls (cancel_strategy_task s) = cancel_all_calls s"
  by (simp_all add: cancel_strategy_task_def split: option.split)

lemma exit_app_forced:
  "exit_app env True s =
     (Returns (), (cancel_strategy_task s)\<lparr>app_exit_calls := app_exit_calls s + 1\<rparr>)"
  by (simp add: exit_app_def Let_def cancel_strategy_task_fields)

lemma exit_app_not_forced:
  "exit_app env False s =
     (case cancel_outstanding_orders env (cancel_strategy_task s) of
        (Raises e, s2) \<Rightarrow> (Raises e, s2)
      | (Returns ok, s2) \<Rightarrow>
          if \<not> ok then (Returns (), log_line wind_down_terminated_message s2)
          else (Returns (), s2\<lparr>app_exit_calls := app_exit_calls s2 + 1\<rparr>))"
  by (simp add: exit_app_def Let_def)

lemma exit_app_flag:
  "fst (cancel_outstanding_orders env (cancel_strategy_task s)) =
     fst (cancel_outstanding_orders env s)"
  by (rule cancel_outstanding_orders_flag_state) (simp add: cancel_strategy_task_fields)

text \<open>
  C4: when the cancellation of the outstanding orders returns \<open>False\<close>, \<open>exit(force=False)\<close>
  returns without calling \<open>self.app.exit()\<close> and its last log line is the failure
  report; whenever a call of \<open>exit\<close> does call \<open>self.app.exit()\<close>, either \<open>force\<close> was
  set or the cancellation returned \<open>True\<close>; and \<open>exit(force=True)\<close> calls
  \<open>self.app.exit()\<close> once without any \<open>cancel_all\<close> call and without logging anything.
\<close>

theorem exit_requires_cancellation_or_force:
  "(fst (cancel_outstanding_orders env s) = Returns False \<longrightarrow>
      fst (exit_app env False s) = Returns () \<and>
      app_exit_calls (snd (exit_app env False s)) = app_exit_calls s \<and>
      last (app_log (snd (exit_app env False s))) = wind_down_terminated_message) \<and>
   (app_exit_calls (snd (exit_app env force s)) \<noteq> app_exit_calls s \<longrightarrow>
      force \<or> fst (cancel_outstanding_orders env s) = Returns True) \<and>
   fst (exit_app env True s) = Returns () \<and>
   app_exit_calls (snd (exit_app env True s)) = app_exit_calls s + 1 \<and>
   cancel_all_calls (snd (exit_app env True s)) = cancel_all_calls s \<and>
   app_log (snd (exit_app env True s)) = app_log s"
proof -
  let ?s1 = "cancel_strategy_task s"
  obtain out s2 where r: "cancel_outstanding_orders env ?s1 = (out, s2)"
    by (cases "cancel_outstanding_orders env ?s1")
  have out: "fst (cancel_outstanding_orders env s) = out"
    using exit_app_flag [of env s] r by simp
  have calls2: "app_exit_calls s2 = app_exit_calls s"
    using cancel_outstanding_orders_app_exit_calls [of env ?s1] r
    by (simp add: cancel_strategy_task_fields)
  have failed: "fst (exit_app env False s) = Returns () \<and>
      app_exit_calls (snd (exit_app env False s)) = app_exit_calls s \<and>
      last (app_log (snd (exit_app env False s))) = wind_down_terminated_message"
    if "fst (cancel_outstanding_orders env s) = Returns False"
    using that out r calls2 by (simp add: exit_app_not_forced log_line_def)
  have only: "force \<or> fst (cancel_outstanding_orders env s) = Returns True"
    if changed: "app_exit_calls (snd (exit_app env force s)) \<noteq> app_exit_calls s"
  proof (cases force)
    case True
    then show ?thesis by simp
  next
    case False
    show ?thesis
    proof (cases out)
      case (Returns ok)
      with changed False r calls2 out show ?thesis
        by (cases ok) (simp_all add: exit_app_not_forced log_line_def)
    next
      case (Raises e)
      with changed False r calls2 show ?thesis by (simp add: exit_app_not_forced)
    qed
  qed
  have forced: "fst (exit_app env True s) = Returns () \<and>
      app_exit_calls (snd (exit_app env True s)) = app_exit_calls s + 1 \<and>
      cancel_all_calls (snd (exit_app env True s)) = cancel_all_calls s \<and>
      app_log (snd (exit_app env True s)) = app_log s"
    by (simp add: exit_app_forced cancel_strategy_task_fields)
  from failed only forced show ?thesis by blast
qed

lemma wind_down_markets: "markets (wind_down s) = markets s"
  by (simp add: wind_down_def Let_def cancel_strategy_task_def stop_reporting_module_def
        split: option.split)

lemma wind_down_calls: "cancel_all_calls (wind_down s) = cancel_all_calls s"
  by (simp add: wind_down_def Let_def cancel_strategy_task_def stop_reporting_module_def
        split: option.split)

lemma stop_flag:
  "fst (cancel_outstanding_orders env (log_line msg s)) = fst (cancel_outstanding_orders env s)"
  by (rule cancel_outstanding_orders_flag_state) (simp add: log_line_def)

lemma stop_markets:
  "markets (snd (stop env False s)) =
     (if fst (cancel_outstanding_orders env s) = Returns True then [] else markets s)"
proof -
  let ?s1 = "log_line (newline @ ''Winding down...'') s"
  obtain out s2 where r: "cancel_outstanding_orders env ?s1 = (out, s2)"
    by (cases "cancel_outstanding_orders env ?s1")
  have out: "fst (cancel_outstanding_orders env s) = out"
    using stop_flag [of env "newline @ ''Winding down...''" s] r by simp
  have m2: "markets s2 = markets s"
    using cancel_outstanding_orders_markets [of env ?s1] r by (simp add: log_line_def)
  show ?thesis
  proof (cases out)
    case (Returns ok)
    with r out m2 show ?thesis
      by (cases ok) (simp_all add: stop_def Let_def wind_down_markets)
  next
    case (Raises e)
    with r out m2 show ?thesis by (simp add: stop_def Let_def)
  qed
qed

lemma stop_returns:
  "fst (cancel_outstanding_orders env s) = Returns ok \<Longrightarrow> fst (stop env False s) = Returns ()"
proof -
  assume a: "fst (cancel_outstanding_orders env s) = Returns ok"
  let ?s1 = "log_line (newline @ ''Winding down...'') s"
  obtain out s2 where r: "cancel_outstanding_orders env ?s1 = (out, s2)"
    by (cases "cancel_outstanding_orders env ?s1")
  have "fst (cancel_outstanding_orders env s) = out"
    using stop_flag [of env "newline @ ''Winding down...''" s] r by simp
  with a r show ?thesis by (simp add: stop_def Let_def)
qed

lemma stop_no_markets_calls:
  "markets s = [] \<Longrightarrow> cancel_all_calls (snd (stop env False s)) = cancel_all_calls s"
  by (simp add: stop_def Let_def cancel_outstanding_orders_no_markets log_line_def wind_down_calls)

text \<open>
  C5: when the cancellation of a first \<open>stop()\<close> returns \<open>True\<close>, that \<open>stop()\<close> leaves the
  \<open>markets\<close> dict empty, a second \<open>stop()\<close> makes no \<open>cancel_all\<close> call, and the
  cancellation of the second \<open>stop()\<close> returns \<open>True\<close> again (whatever the environment
  has become in between).
\<close>

theorem stop_twice_cancels_once:
  assumes first: "fst (cancel_outstanding_orders env s) = Returns True"
  shows "fst (stop env False s) = Returns () \<and>
         markets (snd (stop env False s)) = [] \<and>
         new_cancel_all_calls (snd (stop env False s))
           (snd (stop env' False (snd (stop env False s)))) = [] \<and>
         fst (cancel_outstanding_orders env' (snd (stop env False s))) = Returns True \<and>
         fst (stop env' False (snd (stop env False s))) = Returns ()"
proof -
  let ?s' = "snd (stop env False s)"
  from first have ret: "fst (stop env False s) = Returns ()" by (rule stop_returns)
  from first have empty: "markets ?s' = []" by (simp add: stop_markets)
  then have again: "fst (cancel_outstanding_orders env' ?s') = Returns True"
    by (simp add: cancel_outstanding_orders_no_markets)
  then have ret': "fst (stop env' False ?s') = Returns ()" by (rule stop_returns)
  from empty have "new_cancel_all_calls ?s' (snd (stop env' False ?s')) = []"
    by (simp add: new_cancel_all_calls_def stop_no_markets_calls)
  with ret empty again ret' show ?thesis by simp
qed

text \<open>
  C6: \<open>stop()\<close> without \<open>skip_order_cancellation\<close> sets the \<open>markets\<close> dict to empty when the
  cancellation returns \<open>True\<close>, and leaves it as it was in every other case.
\<close>

theorem stop_erases_markets_only_on_success:
  "(fst (cancel_outstanding_orders env s) = Returns True \<longrightarrow>
      markets (snd (stop env False s)) = []) \<and>
   (fst (cancel_outstanding_orders env s) \<noteq> Returns True \<longrightarrow>
      markets (snd (stop env False s)) = markets s)"
  by (simp add: stop_markets)

lemma demo_market_cancel_all: "market_cancel_all demo_environment = demo_cancel_all"
  by (simp add: demo_environment_def)

lemma demo_flag_failed:
  "fst (cancel_outstanding_orders demo_environment demo_application) = Returns False"
proof -
  have "market_objects demo_environment (markets demo_application)"
    by (simp add: market_objects_def demo_non_skipped)
  then show ?thesis
    by (simp add: cancel_outstanding_orders_flag all_results_succeeded_def demo_non_skipped
          demo_market_cancel_all demo_cancel_all_def demo_binance_def)
qed

lemma demo_ddex_non_skipped:
  "non_skipped_markets demo_environment (markets demo_ddex_application) = [(''ddex'', Some demo_ddex)]"
  by (simp add: non_skipped_markets_def skips_cancel_on_exit_def demo_environment_def
        demo_ddex_application_def init_def)

lemma demo_ddex_flag_succeeded:
  "fst (cancel_outstanding_orders demo_environment demo_ddex_application) = Returns True"
proof -
  have "market_objects demo_environment (markets demo_ddex_application)"
    by (simp add: market_objects_def demo_ddex_non_skipped)
  then show ?thesis
    by (simp add: cancel_outstanding_orders_flag all_results_succeeded_def demo_ddex_non_skipped
          demo_market_cancel_all demo_cancel_all_def demo_ddex_def)
qed

theorem exit_requires_cancellation_or_force_witness:
  "fst (cancel_outstanding_orders demo_environment demo_application) = Returns False \<and>
   fst (exit_app demo_environment False demo_application) = Returns () \<and>
   app_exit_calls (snd (exit_app demo_environment False demo_application)) = 0 \<and>
   last (app_log (snd (exit_app demo_environment False demo_application))) =
     wind_down_terminated_message \<and>
   app_exit_calls (snd (exit_app demo_environment True demo_application)) = 1"
proof -
  have zero: "app_exit_calls demo_application = 0"
    by (simp add: demo_application_def init_def)
  from exit_requires_cancellation_or_force [of demo_environment demo_application False]
    demo_flag_failed zero
  show ?thesis by simp
qed

theorem stop_twice_cancels_once_witness:
  "fst (cancel_outstanding_orders demo_environment demo_ddex_application) = Returns True \<and>
   markets (snd (stop demo_environment False demo_ddex_application)) = [] \<and>
   new_cancel_all_calls (snd (stop demo_environment False demo_ddex_application))
     (snd (stop demo_environment False (snd (stop demo_environment False demo_ddex_application))))
     = [] \<and>
   fst (cancel_outstanding_orders demo_environment
          (snd (stop demo_environment False demo_ddex_application))) = Returns True"
  using stop_twice_cancels_once [OF demo_ddex_flag_succeeded, of demo_environment]
    demo_ddex_flag_succeeded
  by simp

theorem stop_erases_markets_only_on_success_witness:
  "fst (cancel_outstanding_orders demo_environment demo_application) = Returns False \<and>
   markets (snd (stop demo_environment False demo_application)) =
     [(''radar_relay'', Some demo_radar_relay), (''binance'', Some demo_binance)] \<and>
   fst (cancel_outstanding_orders demo_environment demo_ddex_application) = Returns True \<and>
   markets (snd (stop demo_environment False demo_ddex_application)) = []"
proof -
  have m: "markets demo_application =
      [(''radar_relay'', Some demo_radar_relay), (''binance'', Some demo_binance)]"
    by (simp add: demo_application_def init_def)
  from stop_erases_markets_only_on_success [of demo_environment demo_application]
    stop_erases_markets_only_on_success [of demo_environment demo_ddex_application]
    demo_flag_failed demo_ddex_flag_succeeded m
  show ?thesis by simp
qed

lemma map_of_dict_set: "map_of (dict_set k v kvs) = (map_of kvs)(k \<mapsto> v)"
  by (induction kvs) (auto simp add: fun_eq_iff)

lemma keys_dict_set: "fst ` set (dict_set k v kvs) = insert k (fst ` set kvs)"
  by (simp add: dom_map_of_conv_image_fst [symmetric] map_of_dict_set)

lemma fold_add_iterator:
  "fold (\<lambda>market. add_iterator (MarketIterator market)) xs c =
     c\<lparr>iterators := iterators c @ map MarketIterator xs\<rparr>"
  by (induction xs arbitrary: c) (simp_all add: add_iterator_def)

lemma start_clock_clock:
  "clock (start_clock strategy_name s) =
     Some \<lparr>mode = REALTIME,
           iterators = [WalletIterator (wallet s)] @
             map (\<lambda>entry. MarketIterator (snd entry)) (markets s) @
             [StrategyIterator (strategy s)]\<rparr>"
  by (simp add: start_clock_def Let_def fold_add_iterator add_iterator_def log_line_def comp_def)

lemma start_clock_fields:
  "wallet (start_clock strategy_name s) = wallet s"
  "markets (start_clock strategy_name s) = markets s"
  "strategy (start_clock strategy_name s) = strategy s"
  "market_pair (start_clock strategy_name s) = market_pair s"
  "strategy_task (start_clock strategy_name s) = Some \<lparr>cancel_requested = False, cancelled = False\<rparr>"
  "app_log (start_clock strategy_name s) = app_log s @ [strategy_started_message strategy_name]"
  by (simp_all add: start_clock_def Let_def log_line_def)

lemma market_names_of_cross_exchange:
  "market_names_of env ''cross_exchange_market_making'' =
     (let strategy_cm = get_strategy_config_map env ''cross_exchange_market_making''
      in [(str_lower env (cm_maker_market strategy_cm), str_upper env (cm_maker_market_symbol strategy_cm)),
          (str_lower env (cm_taker_market strategy_cm), str_upper env (cm_taker_market_symbol strategy_cm))])"
  by (simp add: market_names_of_def)

lemma market_names_of_arbitrage:
  "market_names_of env ''arbitrage'' =
     (let strategy_cm = get_strategy_config_map env ''arbitrage''
      in [(str_lower env (cm_primary_market strategy_cm), str_upper env (cm_primary_market_symbol strategy_cm)),
          (str_lower env (cm_secondary_market strategy_cm), str_upper env (cm_secondary_market_symbol strategy_cm))])"
  by (simp add: market_names_of_def)

lemma market_names_of_other:
  "strategy_name \<noteq> ''cross_exchange_market_making'' \<Longrightarrow> strategy_name \<noteq> ''arbitrage'' \<Longrightarrow>
     market_names_of env strategy_name = []"
  by (simp add: market_names_of_def)

lemma start_market_making_cross_exchange:
  "start_market_making env ''cross_exchange_market_making'' s =
     start_cross_exchange env ''cross_exchange_market_making''
       (get_strategy_config_map env ''cross_exchange_market_making'') s"
  by (simp add: start_market_making_def)

lemma start_market_making_arbitrage:
  "start_market_making env ''arbitrage'' s =
     start_arbitrage env ''arbitrage'' (get_strategy_config_map env ''arbitrage'') s"
  by (simp add: start_market_making_def)

lemma start_market_making_other:
  "strategy_name \<noteq> ''cross_exchange_market_making'' \<Longrightarrow> strategy_name \<noteq> ''arbitrage'' \<Longrightarrow>
     start_market_making env strategy_name s = (Raises NotImplementedError, s)"
  by (simp add: start_market_making_def)

lemma start_cross_exchange_split_error:
  assumes "split_raises env (str_lower env (cm_maker_market cm), str_upper env (cm_maker_market_symbol cm)) \<or>
           split_raises env (str_lower env (cm_taker_market cm), str_upper env (cm_taker_market_symbol cm))"
  shows "\<exists>e. (symbol_split env (str_lower env (cm_maker_market cm)) (str_upper env (cm_maker_market_symbol cm)) = Inl e \<or>
              symbol_split env (str_lower env (cm_taker_market cm)) (str_upper env (cm_taker_market_symbol cm)) = Inl e) \<and>
             start_cross_exchange env strategy_name cm s = (Returns (), log_line e s)"
proof (cases "symbol_split env (str_lower env (cm_maker_market cm)) (str_upper env (cm_maker_market_symbol cm))")
  case (Inl e)
  then have "start_cross_exchange env strategy_name cm s = (Returns (), log_line e s)"
    by (simp add: start_cross_exchange_def Let_def)
  with Inl show ?thesis by blast
next
  case (Inr maker_assets)
  with assms obtain e where
    e: "symbol_split env (str_lower env (cm_taker_market cm)) (str_upper env (cm_taker_market_symbol cm)) = Inl e"
    by (auto simp add: split_raises_def split: sum.splits)
  with Inr have "start_cross_exchange env strategy_name cm s = (Returns (), log_line e s)"
    by (simp add: start_cross_exchange_def Let_def)
  with e show ?thesis by blast
qed

lemma start_arbitrage_split_error:
  assumes "split_raises env (str_lower env (cm_primary_market cm), str_upper env (cm_primary_market_symbol cm)) \<or>
           split_raises env (str_lower env (cm_secondary_market cm), str_upper env (cm_secondary_market_symbol cm))"
  shows "\<exists>e. (symbol_split env (str_lower env (cm_primary_market cm)) (str_upper env (cm_primary_market_symbol cm)) = Inl e \<or>
              symbol_split env (str_lower env (cm_secondary_market cm)) (str_upper env (cm_secondary_market_symbol cm)) = Inl e) \<and>
             start_arbitrage env strategy_name cm s = (Returns (), log_line e s)"
proof (cases "symbol_split env (str_lower env (cm_primary_market cm)) (str_upper env (cm_primary_market_symbol cm))")
  case (Inl e)
  then have "start_arbitrage env strategy_name cm s = (Returns (), log_line e s)"
    by (simp add: start_arbitrage_def Let_def)
  with Inl show ?thesis by blast
next
  case (Inr primary_assets)
  with assms obtain e where
    e: "symbol_split env (str_lower env (cm_secondary_market cm)) (str_upper env (cm_secondary_market_symbol cm)) = Inl e"
    by (auto simp add: split_raises_def split: sum.splits)
  with Inr have "start_arbitrage env strategy_name cm s = (Returns (), log_line e s)"
    by (simp add: start_arbitrage_def Let_def)
  with e show ?thesis by blast
qed

text \<open>
  C7: when \<open>SymbolSplitter.split\<close> raises a \<open>ValueError\<close> for one of the two (market,
  symbol) pairs of the strategy (which makes the strategy one of the two known ones),
  \<open>start_market_making\<close> returns normally and the application it leaves is the one it
  started from with the message of such a \<open>ValueError\<close> appended to the log: wallet,
  markets, market pair, strategy, clock and strategy task are untouched.
\<close>

theorem split_error_creates_no_state:
  assumes raises: "\<exists>market_symbol \<in> set (market_names_of env strategy_name).
                     split_raises env market_symbol"
  shows "\<exists>e. (\<exists>market_symbol \<in> set (market_names_of env strategy_name).
                 symbol_split env (fst market_symbol) (snd market_symbol) = Inl e) \<and>
             start_market_making env strategy_name s = (Returns (), log_line e s) \<and>
             app_log (snd (start_market_making env strategy_name s)) = app_log s @ [e] \<and>
             wallet (snd (start_market_making env strategy_name s)) = wallet s \<and>
             markets (snd (start_market_making env strategy_name s)) = markets s \<and>
             market_pair (snd (start_market_making env strategy_name s)) = market_pair s \<and>
             strategy (snd (start_market_making env strategy_name s)) = strategy s \<and>
             clock (snd (start_market_making env strategy_name s)) = clock s \<and>
             strategy_task (snd (start_market_making env strategy_name s)) = strategy_task s"
proof -
  from raises have "market_names_of env strategy_name \<noteq> []" by auto
  then consider "strategy_name = ''cross_exchange_market_making''" | "strategy_name = ''arbitrage''"
    using market_names_of_other by blast
  then have "\<exists>e. (\<exists>market_symbol \<in> set (market_names_of env strategy_name).
                 symbol_split env (fst market_symbol) (snd market_symbol) = Inl e) \<and>
             start_market_making env strategy_name s = (Returns (), log_line e s)"
  proof cases
    case 1
    let ?cm = "get_strategy_config_map env ''cross_exchange_market_making''"
    from raises 1 have
      "split_raises env (str_lower env (cm_maker_market ?cm), str_upper env (cm_maker_market_symbol ?cm)) \<or>
       split_raises env (str_lower env (cm_taker_market ?cm), str_upper env (cm_taker_market_symbol ?cm))"
      by (simp add: market_names_of_cross_exchange Let_def)
    from start_cross_exchange_split_error [OF this, of strategy_name s]
    show ?thesis
      by (auto simp add: 1 market_names_of_cross_exchange start_market_making_cross_exchange Let_def)
  next
    case 2
    let ?cm = "get_strategy_config_map env ''arbitrage''"
    from raises 2 have
      "split_raises env (str_lower env (cm_primary_market ?cm), str_upper env (cm_primary_market_symbol ?cm)) \<or>
       split_raises env (str_lower env (cm_secondary_market ?cm), str_upper env (cm_secondary_market_symbol ?cm))"
      by (simp add: market_names_of_arbitrage Let_def)
    from start_arbitrage_split_error [OF this, of strategy_name s]
    show ?thesis
      by (auto simp add: 2 market_names_of_arbitrage start_market_making_arbitrage Let_def)
  qed
  then obtain e where
    "\<exists>market_symbol \<in> set (market_names_of env strategy_name).
       symbol_split env (fst market_symbol) (snd market_symbol) = Inl e"
    and "start_market_making env strategy_name s = (Returns (), log_line e s)" by blast
  then show ?thesis by (intro exI [of _ e]) (simp add: log_line_def)
qed

lemma markets_getitem_key:
  "market_name \<in> fst ` set (markets s) \<Longrightarrow> \<exists>market. markets_getitem s market_name = Returns market"
proof -
  assume "market_name \<in> fst ` set (markets s)"
  then have "map_of (markets s) market_name \<noteq> None" by (simp add: map_of_eq_None_iff)
  then show ?thesis by (auto simp add: markets_getitem_def)
qed

lemma initialize_markets_fields:
  "wallet (initialize_markets env market_names s) = wallet s"
  "strategy (initialize_markets env market_names s) = strategy s"
  by (induction market_names arbitrary: s) auto

lemma initialize_markets_keys:
  "fst ` set (markets (initialize_markets env market_names s)) =
     fst ` set market_names \<union> fst ` set (markets s)"
proof (induction market_names arbitrary: s)
  case Nil
  show ?case by simp
next
  case (Cons entry rest)
  obtain a b where "entry = (a, b)" by (cases entry)
  then show ?case by (simp add: Cons.IH keys_dict_set)
qed

lemma start_cross_exchange_succeeds:
  assumes ma: "symbol_split env (str_lower env (cm_maker_market cm)) (str_upper env (cm_maker_market_symbol cm)) = Inr ma"
    and ta: "symbol_split env (str_lower env (cm_taker_market cm)) (str_upper env (cm_taker_market_symbol cm)) = Inr ta"
    and acc: "acct s = Some acc"
  shows "\<exists>t. start_cross_exchange env strategy_name cm s = (Returns (), start_clock strategy_name t) \<and>
             wallet t \<noteq> None \<and> strategy t \<noteq> None \<and>
             str_lower env (cm_maker_market cm) \<in> fst ` set (markets t) \<and>
             str_lower env (cm_taker_market cm) \<in> fst ` set (markets t)"
proof -
  let ?mm = "str_lower env (cm_maker_market cm)" and ?tm = "str_lower env (cm_taker_market cm)"
  let ?ms = "str_upper env (cm_maker_market_symbol cm)" and ?ts = "str_upper env (cm_taker_market_symbol cm)"
  let ?s1 = "s\<lparr>wallet := Some \<lparr>private_key = privateKey acc,
                 backend_urls = [ethereum_rpc_url env],
                 erc20_token_addresses =
                   get_erc20_token_addresses env {fst ma, snd ma, fst ta, snd ta},
                 chain = MAIN_NET\<rparr>\<rparr>"
  let ?s2 = "initialize_markets env [(?mm, ?ms), (?tm, ?ts)] ?s1"
  have w: "initialize_wallet env {fst ma, snd ma, fst ta, snd ta} s = (Returns (), ?s1)"
    by (simp add: initialize_wallet_def acc)
  have keys: "?mm \<in> fst ` set (markets ?s2)" "?tm \<in> fst ` set (markets ?s2)"
    by (simp_all add: initialize_markets_keys del: initialize_markets.simps)
  from keys(1) obtain maker where maker: "markets_getitem ?s2 ?mm = Returns maker"
    using markets_getitem_key by blast
  from keys(2) obtain taker where taker: "markets_getitem ?s2 ?tm = Returns taker"
    using markets_getitem_key by blast
  let ?pair = "CrossExchangeMarketPair maker ?ms (fst ma) (snd ma) taker ?ts (fst ta) (snd ta)
                 (resolve_top_depth_tolerance (cm_top_depth_tolerance cm) ?ms)"
  let ?t = "?s2\<lparr>market_pair := Some ?pair,
              strategy := Some (CrossExchangeMarketMakingStrategy [?pair]
                (cm_min_profitability cm) (strategy_report_interval env)
                cross_exchange_logging_options (cm_trade_size_override cm)
                (cm_limit_order_min_expiration cm) (cm_cancel_order_threshold cm)
                (cm_active_order_canceling cm))\<rparr>"
  have "start_cross_exchange env strategy_name cm s = (Returns (), start_clock strategy_name ?t)"
    by (simp add: start_cross_exchange_def Let_def ma ta w maker taker
          del: initialize_markets.simps)
  moreover have "wallet ?t \<noteq> None" by (simp add: initialize_markets_fields del: initialize_markets.simps)
  moreover have "strategy ?t \<noteq> None" by simp
  moreover have "?mm \<in> fst ` set (markets ?t)" "?tm \<in> fst ` set (markets ?t)"
    using keys by (simp_all del: initialize_markets.simps)
  ultimately show ?thesis by blast
qed

lemma start_arbitrage_succeeds:
  assumes pa: "symbol_split env (str_lower env (cm_primary_market cm)) (str_upper env (cm_primary_market_symbol cm)) = Inr pa"
    and sa: "symbol_split env (str_lower env (cm_secondary_market cm)) (str_upper env (cm_secondary_market_symbol cm)) = Inr sa"
    and acc: "acct s = Some acc"
  shows "\<exists>t. start_arbitrage env strategy_name cm s = (Returns (), start_clock strategy_name t) \<and>
             wallet t \<noteq> None \<and> strategy t \<noteq> None \<and>
             str_lower env (cm_primary_market cm) \<in> fst ` set (markets t) \<and>
             str_lower env (cm_secondary_market cm) \<in> fst ` set (markets t)"
proof -
  let ?pm = "str_lower env (cm_primary_market cm)" and ?sm = "str_lower env (cm_secondary_market cm)"
  let ?ps = "str_upper env (cm_primary_market_symbol cm)" and ?ss = "str_upper env (cm_secondary_market_symbol cm)"
  let ?s1 = "s\<lparr>wallet := Some \<lparr>private_key = privateKey acc,
                 backend_urls = [ethereum_rpc_url env],
                 erc20_token_addresses =
                   get_erc20_token_addresses env {fst pa, snd pa, fst sa, snd sa},
                 chain = MAIN_NET\<rparr>\<rparr>"
  let ?s2 = "initialize_markets env [(?pm, ?ps), (?sm, ?ss)] ?s1"
  have w: "initialize_wallet env {fst pa, snd pa, fst sa, snd sa} s = (Returns (), ?s1)"
    by (simp add: initialize_wallet_def acc)
  have keys: "?pm \<in> fst ` set (markets ?s2)" "?sm \<in> fst ` set (markets ?s2)"
    by (simp_all add: initialize_markets_keys del: initialize_markets.simps)
  from keys(1) obtain primary where primary: "markets_getitem ?s2 ?pm = Returns primary"
    using markets_getitem_key by blast
  from keys(2) obtain secondary where secondary: "markets_getitem ?s2 ?sm = Returns secondary"
    using markets_getitem_key by blast
  let ?pair = "ArbitrageMarketPair primary ?ps (fst pa) (snd pa) secondary ?ss (fst sa) (snd sa)"
  let ?t = "?s2\<lparr>market_pair := Some ?pair,
              strategy := Some (ArbitrageStrategy [?pair] (cm_min_profitability cm)
                [OPTION_LOG_ALL])\<rparr>"
  have "start_arbitrage env strategy_name cm s = (Returns (), start_clock strategy_name ?t)"
    by (simp add: start_arbitrage_def Let_def pa sa w primary secondary
          del: initialize_markets.simps)
  moreover have "wallet ?t \<noteq> None" by (simp add: initialize_markets_fields del: initialize_markets.simps)
  moreover have "strategy ?t \<noteq> None" by simp
  moreover have "?pm \<in> fst ` set (markets ?t)" "?sm \<in> fst ` set (markets ?t)"
    using keys by (simp_all del: initialize_markets.simps)
  ultimately show ?thesis by blast
qed

lemma not_split_raises:
  "\<not> split_raises env (m, sy) \<Longrightarrow> \<exists>assets. symbol_split env m sy = Inr assets"
  by (simp add: split_raises_def split: sum.splits)

lemma start_market_making_succeeds:
  assumes known: "strategy_name = ''cross_exchange_market_making'' \<or> strategy_name = ''arbitrage''"
    and splits: "\<forall>market_symbol \<in> set (market_names_of env strategy_name).
                   \<not> split_raises env market_symbol"
    and account: "acct s \<noteq> None"
  shows "\<exists>t. start_market_making env strategy_name s = (Returns (), start_clock strategy_name t) \<and>
             wallet t \<noteq> None \<and> strategy t \<noteq> None \<and>
             fst ` set (market_names_of env strategy_name) \<subseteq> fst ` set (markets t)"
proof -
  from account obtain acc where acc: "acct s = Some acc" by blast
  from known show ?thesis
  proof
    assume name: "strategy_name = ''cross_exchange_market_making''"
    let ?cm = "get_strategy_config_map env ''cross_exchange_market_making''"
    from splits name obtain ma ta where
      "symbol_split env (str_lower env (cm_maker_market ?cm)) (str_upper env (cm_maker_market_symbol ?cm)) = Inr ma"
      "symbol_split env (str_lower env (cm_taker_market ?cm)) (str_upper env (cm_taker_market_symbol ?cm)) = Inr ta"
      by (auto simp add: market_names_of_cross_exchange Let_def dest!: not_split_raises)
    from start_cross_exchange_succeeds [OF this acc, of strategy_name]
    show ?thesis
      by (auto simp add: name start_market_making_cross_exchange market_names_of_cross_exchange Let_def)
  next
    assume name: "strategy_name = ''arbitrage''"
    let ?cm = "get_strategy_config_map env ''arbitrage''"
    from splits name obtain pa sa where
      "symbol_split env (str_lower env (cm_primary_market ?cm)) (str_upper env (cm_primary_market_symbol ?cm)) = Inr pa"
      "symbol_split env (str_lower env (cm_secondary_market ?cm)) (str_upper env (cm_secondary_market_symbol ?cm)) = Inr sa"
      by (auto simp add: market_names_of_arbitrage Let_def dest!: not_split_raises)
    from start_arbitrage_succeeds [OF this acc, of strategy_name]
    show ?thesis
      by (auto simp add: name start_market_making_arbitrage market_names_of_arbitrage Let_def)
  qed
qed

text \<open>
  C9: for either known strategy, when no split raises and an account is unlocked,
  \<open>start_market_making\<close> returns, its last log line says that the strategy started, the
  markets of the strategy are registered, and the iterators of the new clock are, in
  this order: the wallet, every market of the \<open>markets\<close> dict, and last the strategy.
\<close>

theorem strategy_is_last_iterator:
  assumes known: "strategy_name = ''cross_exchange_market_making'' \<or> strategy_name = ''arbitrage''"
    and splits: "\<forall>market_symbol \<in> set (market_names_of env strategy_name).
                   \<not> split_raises env market_symbol"
    and account: "acct s \<noteq> None"
  shows "\<exists>s' c. start_market_making env strategy_name s = (Returns (), s') \<and>
           last (app_log s') = strategy_started_message strategy_name \<and>
           wallet s' \<noteq> None \<and> strategy s' \<noteq> None \<and>
           fst ` set (market_names_of env strategy_name) \<subseteq> fst ` set (markets s') \<and>
           clock s' = Some c \<and>
           iterators c =
             [WalletIterator (wallet s')] @
             map (\<lambda>entry. MarketIterator (snd entry)) (markets s') @
             [StrategyIterator (strategy s')]"
proof -
  from start_market_making_succeeds [OF assms] obtain t where
    t: "start_market_making env strategy_name s = (Returns (), start_clock strategy_name t)"
      "wallet t \<noteq> None" "strategy t \<noteq> None"
      "fst ` set (market_names_of env strategy_name) \<subseteq> fst ` set (markets t)"
    by blast
  let ?s' = "start_clock strategy_name t"
  let ?c = "\<lparr>mode = REALTIME,
             iterators = [WalletIterator (wallet t)] @
               map (\<lambda>entry. MarketIterator (snd entry)) (markets t) @
               [StrategyIterator (strategy t)]\<rparr>"
  have "start_market_making env strategy_name s = (Returns (), ?s') \<and>
        last (app_log ?s') = strategy_started_message strategy_name \<and>
        wallet ?s' \<noteq> None \<and> strategy ?s' \<noteq> None \<and>
        fst ` set (market_names_of env strategy_name) \<subseteq> fst ` set (markets ?s') \<and>
        clock ?s' = Some ?c \<and>
        iterators ?c =
          [WalletIterator (wallet ?s')] @
          map (\<lambda>entry. MarketIterator (snd entry)) (markets ?s') @
          [StrategyIterator (strategy ?s')]"
    using t by (simp add: start_clock_fields start_clock_clock)
  then show ?thesis by blast
qed

lemma demo_market_names:
  "market_names_of demo_environment ''cross_exchange_market_making'' =
     [(''radar_relay'', ''ZRX-WETH''), (''binance'', ''ZRXETH'')]"
  by (simp add: market_names_of_def demo_environment_def demo_strategy_config_map_def
        ascii_lower_def ascii_upper_def translate_def ascii_lowercase_def ascii_uppercase_def)

lemma demo_bad_market_names:
  "market_names_of demo_bad_symbol_environment ''cross_exchange_market_making'' =
     [(''radar_relay'', ''ZRX-WETH''), (''binance'', ''ZRX'')]"
  by (simp add: market_names_of_def demo_bad_symbol_environment_def demo_environment_def
        demo_strategy_config_map_def
        ascii_lower_def ascii_upper_def translate_def ascii_lowercase_def ascii_uppercase_def)

lemma demo_bad_symbol_split: "symbol_split demo_bad_symbol_environment = demo_symbol_split"
  by (simp add: demo_bad_symbol_environment_def demo_environment_def)

lemma demo_symbol_split: "symbol_split demo_environment = demo_symbol_split"
  by (simp add: demo_environment_def)

theorem split_error_creates_no_state_witness:
  "(\<exists>market_symbol \<in> set (market_names_of demo_bad_symbol_environment
                             ''cross_exchange_market_making'').
      split_raises demo_bad_symbol_environment market_symbol) \<and>
   start_market_making demo_bad_symbol_environment ''cross_exchange_market_making''
     demo_application = (Returns (), log_line ''Unable to split ZRX'' demo_application)"
proof -
  have raises: "\<exists>market_symbol \<in> set (market_names_of demo_bad_symbol_environment
                             ''cross_exchange_market_making'').
      split_raises demo_bad_symbol_environment market_symbol"
    by (simp add: demo_bad_market_names split_raises_def demo_bad_symbol_split
          demo_symbol_split_def)
  from split_error_creates_no_state [OF raises, of demo_application]
  obtain e where
    e: "\<exists>market_symbol \<in> set (market_names_of demo_bad_symbol_environment
                             ''cross_exchange_market_making'').
          symbol_split demo_bad_symbol_environment (fst market_symbol) (snd market_symbol) = Inl e"
    and r: "start_market_making demo_bad_symbol_environment ''cross_exchange_market_making''
              demo_application = (Returns (), log_line e demo_application)"
    by blast
  from e have "e = ''Unable to split ZRX''"
    by (simp add: demo_bad_market_names demo_bad_symbol_split demo_symbol_split_def)
  with raises r show ?thesis by simp
qed

theorem strategy_is_last_iterator_witness:
  "(\<exists>s' c. start_market_making demo_environment ''cross_exchange_market_making''
              demo_idle_application = (Returns (), s') \<and>
            clock s' = Some c \<and>
            iterators c =
              [WalletIterator (wallet s')] @
              map (\<lambda>entry. MarketIterator (snd entry)) (markets s') @
              [StrategyIterator (strategy s')] \<and>
            map fst (markets s') = [''radar_relay'', ''binance''] \<and>
            length (iterators c) = 4)"
proof -
  have known: "''cross_exchange_market_making'' = ''cross_exchange_market_making'' \<or>
      ''cross_exchange_market_making'' = ''arbitrage''" by simp
  have splits: "\<forall>market_symbol \<in> set (market_names_of demo_environment
                    ''cross_exchange_market_making'').
      \<not> split_raises demo_environment market_symbol"
    by (simp add: demo_market_names split_raises_def demo_symbol_split demo_symbol_split_def)
  have account: "acct demo_idle_application \<noteq> None"
    by (simp add: demo_idle_application_def init_def)
  from strategy_is_last_iterator [OF known splits account]
  obtain s' c where
    r: "start_market_making demo_environment ''cross_exchange_market_making''
          demo_idle_application = (Returns (), s')"
    and c: "clock s' = Some c"
    and its: "iterators c =
      [WalletIterator (wallet s')] @
      map (\<lambda>entry. MarketIterator (snd entry)) (markets s') @
      [StrategyIterator (strategy s')]"
    by blast
  have "map fst (markets (snd (start_market_making demo_environment
          ''cross_exchange_market_making'' demo_idle_application))) = [''radar_relay'', ''binance'']"
    by (simp add: start_market_making_def start_cross_exchange_def Let_def demo_environment_def
          demo_strategy_config_map_def demo_symbol_split_def demo_idle_application_def init_def
          initialize_wallet_def markets_getitem_def start_clock_def log_line_def
          ascii_lower_def ascii_upper_def translate_def ascii_lowercase_def ascii_uppercase_def)
  with r have keys: "map fst (markets s') = [''radar_relay'', ''binance'']" by simp
  then have "length (markets s') = 2" by (metis length_map list.size(3,4) One_nat_def Suc_1 add.commute plus_1_eq_Suc)
  with its have "length (iterators c) = 4" by simp
  with r c its keys show ?thesis by (intro exI conjI) assumption+
qed


section \<open>Status and start\<close>

lemma fold_log_line_fields:
  "strategy (fold (\<lambda>x. log_line (f x)) xs s) = strategy s"
  "scheduled_start_market_making (fold (\<lambda>x. log_line (f x)) xs s) = scheduled_start_market_making s"
  by (induction xs arbitrary: s) (simp_all add: log_line_def)

lemma status_fields:
  "strategy (snd (status env s)) = strategy s"
  "scheduled_start_market_making (snd (status env s)) = scheduled_start_market_making s"
  by (simp_all add: status_def Let_def log_line_def fold_log_line_fields
        split: prod.split outcome.split option.split)

lemma status_not_valid:
  "strategy s \<noteq> None \<Longrightarrow> fst (status env s) \<noteq> Returns True"
  by (auto simp add: status_def Let_def log_line_def split: prod.split outcome.split option.split)

lemma loading_markets_loop_returns:
  "list_all (\<lambda>entry. snd entry \<noteq> None) ms \<Longrightarrow>
     \<exists>loading_markets. loading_markets_loop env ms acc = Returns loading_markets"
proof (induction ms arbitrary: acc)
  case Nil
  show ?case by simp
next
  case (Cons entry ms)
  obtain market_name market where entry: "entry = (market_name, market)" by (cases entry)
  with Cons.prems obtain m where "market = Some m" and "list_all (\<lambda>entry. snd entry \<noteq> None) ms"
    by auto
  with Cons.IH show ?case by (simp add: entry)
qed

lemma status_returns_false:
  assumes running: "strategy s \<noteq> None"
    and objs: "list_all (\<lambda>entry. snd entry \<noteq> None) (markets s)"
  shows "fst (status env s) = Returns False"
proof -
  from loading_markets_loop_returns [OF objs] obtain loading_markets where
    "loading_markets_loop env (markets s) [] = Returns loading_markets" by blast
  with running show ?thesis
    by (auto simp add: status_def Let_def log_line_def split: prod.split)
qed

lemma start_not_valid:
  "fst (status env s) \<noteq> Returns True \<Longrightarrow> snd (start env log_level s) = snd (status env s)"
proof -
  assume a: "fst (status env s) \<noteq> Returns True"
  obtain out s1 where r: "status env s = (out, s1)" by (cases "status env s")
  show ?thesis
  proof (cases out)
    case (Returns is_valid)
    with a r have "\<not> is_valid" by simp
    with r Returns show ?thesis by (simp add: start_def)
  next
    case (Raises e)
    with r show ?thesis by (simp add: start_def)
  qed
qed

text \<open>
  C10, amended: whenever \<open>self.strategy\<close> is not \<open>None\<close>, \<open>status()\<close> does not return
  \<open>True\<close> (it returns \<open>False\<close> when every registered market is a market object), and
  \<open>start()\<close> does no more than \<open>status()\<close> did: it schedules no \<open>start_market_making\<close>
  and leaves the running strategy in place. The guard reads \<open>self.strategy\<close> only, so
  it says nothing of a \<open>start()\<close> issued before a scheduled \<open>start_market_making\<close> has
  set it.
\<close>

theorem start_while_running_is_rejected:
  assumes running: "strategy s \<noteq> None"
  shows "fst (status env s) \<noteq> Returns True \<and>
         (list_all (\<lambda>entry. snd entry \<noteq> None) (markets s) \<longrightarrow>
            fst (status env s) = Returns False) \<and>
         snd (start env log_level s) = snd (status env s) \<and>
         scheduled_start_market_making (snd (start env log_level s)) =
           scheduled_start_market_making s \<and>
         strategy (snd (start env log_level s)) = strategy s"
proof -
  from running have invalid: "fst (status env s) \<noteq> Returns True" by (rule status_not_valid)
  then have same: "snd (start env log_level s) = snd (status env s)" by (rule start_not_valid)
  from running have "list_all (\<lambda>entry. snd entry \<noteq> None) (markets s) \<longrightarrow>
      fst (status env s) = Returns False"
    by (simp add: status_returns_false)
  with invalid same show ?thesis by (simp add: status_fields)
qed

lemma start_raises_only_attribute_error:
  "fst (start env log_level s) = Raises e \<Longrightarrow> e = AttributeError"
proof -
  assume a: "fst (start env log_level s) = Raises e"
  have loop: "loading_markets_loop env ms acc = Raises e' \<Longrightarrow> e' = AttributeError" for ms acc e'
  proof (induction ms arbitrary: acc)
    case Nil
    then show ?case by simp
  next
    case (Cons entry ms)
    obtain market_name market where entry: "entry = (market_name, market)" by (cases entry)
    show ?case using Cons by (cases market) (simp_all add: entry)
  qed
  have st: "fst (status env s) = Raises e' \<Longrightarrow> e' = AttributeError" for e'
    using loop [of "markets s" "[]" e']
    by (auto simp add: status_def Let_def log_line_def split: prod.splits outcome.splits option.splits if_splits)
  obtain out s1 where r: "status env s = (out, s1)" by (cases "status env s")
  show ?thesis
  proof (cases out)
    case (Returns is_valid)
    with r a show ?thesis by (simp add: start_def Let_def split: if_splits)
  next
    case (Raises e')
    with r a st [of e'] show ?thesis by (simp add: start_def)
  qed
qed

lemma start_never_not_implemented: "fst (start env log_level s) \<noteq> Raises NotImplementedError"
  using start_raises_only_attribute_error [of env log_level s NotImplementedError] by auto


section \<open>Two starts, and the unknown strategy\<close>

lemmas demo_command_eval =
  handle_command_def demo_parse_args_def Let_def
  ascii_strip_def ascii_lower_def ascii_upper_def translate_def
  ascii_lowercase_def ascii_uppercase_def ascii_is_space_def ascii_split_def
  start_def status_def check_web3_def startswith_def log_line_def
  init_reporting_module_def squote_def
  demo_environment_def demo_idle_application_def init_def demo_account_def

lemmas demo_task_eval =
  run_next_task_def start_market_making_def start_cross_exchange_def Let_def
  demo_environment_def demo_strategy_config_map_def demo_symbol_split_def
  demo_idle_application_def init_def demo_account_def
  initialize_wallet_def markets_getitem_def start_clock_def log_line_def
  ascii_lower_def ascii_upper_def translate_def ascii_lowercase_def ascii_uppercase_def

lemma demo_two_starts_value:
  "demo_two_starts =
   demo_idle_application
     \<lparr>reporting_module := Some \<lparr>report_aggregation_interval = 60, log_report_interval = 60,
                                 running = True\<rparr>,
      app_log := ['' - Config complete'', '' - Ethereum node running and current'',
                  ''Status check complete. Starting 'cross_exchange_market_making' strategy...'',
                  '' - Config complete'', '' - Ethereum node running and current'',
                  ''Status check complete. Starting 'cross_exchange_market_making' strategy...''],
      scheduled_start_market_making :=
        [''cross_exchange_market_making'', ''cross_exchange_market_making''],
      logging_records := [CommandHistory ''start'', CommandHistory ''start''],
      exchange_rate_conversion_started := True\<rparr>"
  by (simp add: demo_two_starts_def demo_command_eval)

lemma demo_first_task_run_fields:
  "strategy demo_first_task_run \<noteq> None"
  "clock demo_first_task_run \<noteq> None"
  "strategy_task demo_first_task_run = Some \<lparr>cancel_requested = False, cancelled = False\<rparr>"
  "scheduled_start_market_making demo_first_task_run = [''cross_exchange_market_making'']"
  by (simp_all add: demo_first_task_run_def demo_two_starts_value demo_task_eval)

lemma demo_second_task_run_fields:
  "scheduled_start_market_making demo_second_task_run = []"
  "task_exceptions demo_second_task_run = []"
  "filter (\<lambda>line. line = strategy_started_message ''cross_exchange_market_making'')
     (app_log demo_second_task_run) =
   [strategy_started_message ''cross_exchange_market_making'',
    strategy_started_message ''cross_exchange_market_making'']"
  by (simp_all add: demo_second_task_run_def demo_first_task_run_def demo_two_starts_value
        demo_task_eval strategy_started_message_def newline_def squote_def backtick_def)

lemma demo_second_task_returns:
  "fst (start_market_making demo_environment ''cross_exchange_market_making''
          (demo_first_task_run\<lparr>scheduled_start_market_making := []\<rparr>)) = Returns ()"
  by (simp add: demo_first_task_run_def demo_two_starts_value demo_task_eval)

lemma strategy_started_message_text:
  "strategy_started_message ''cross_exchange_market_making'' =
     [CHR 0x0A] @ [CHR 0x27] @ ''cross_exchange_market_making'' @ [CHR 0x27] @
     '' strategy started.'' @ [CHR 0x0A] @ ''You can use the '' @ [CHR 0x60] @ ''status'' @
     [CHR 0x60] @ '' command to query the progress.''"
  by (simp add: strategy_started_message_def newline_def squote_def backtick_def)

text \<open>
  C10, as stated: at most one strategy run is active at a time. The command \<open>start\<close> is
  handled twice before the event loop runs a task: \<open>self.strategy\<close> is still \<open>None\<close> at
  the second \<open>start()\<close>, so both pass \<open>status()\<close> and two coroutines are scheduled. The
  first task sets the strategy, the clock and the clock's task; the second task then
  runs \<open>start_market_making\<close> to its end all the same, without an exception and without
  a cancel request to the first clock task: the line that says the strategy started is
  logged twice.
\<close>

theorem double_start_counterexample:
  "scheduled_start_market_making demo_two_starts =
     [''cross_exchange_market_making'', ''cross_exchange_market_making''] \<and>
   strategy demo_first_task_run \<noteq> None \<and>
   clock demo_first_task_run \<noteq> None \<and>
   strategy_task demo_first_task_run = Some \<lparr>cancel_requested = False, cancelled = False\<rparr> \<and>
   scheduled_start_market_making demo_first_task_run = [''cross_exchange_market_making''] \<and>
   fst (start_market_making demo_environment ''cross_exchange_market_making''
          (demo_first_task_run\<lparr>scheduled_start_market_making := []\<rparr>)) = Returns () \<and>
   task_exceptions demo_second_task_run = [] \<and>
   length (filter (\<lambda>line. line =
       [CHR 0x0A] @ [CHR 0x27] @ ''cross_exchange_market_making'' @ [CHR 0x27] @
       '' strategy started.'' @ [CHR 0x0A] @ ''You can use the '' @ [CHR 0x60] @ ''status'' @
       [CHR 0x60] @ '' command to query the progress.'')
     (app_log demo_second_task_run)) = 2"
proof -
  have "scheduled_start_market_making demo_two_starts =
      [''cross_exchange_market_making'', ''cross_exchange_market_making'']"
    by (simp add: demo_two_starts_value)
  moreover have "length (filter (\<lambda>line. line =
       [CHR 0x0A] @ [CHR 0x27] @ ''cross_exchange_market_making'' @ [CHR 0x27] @
       '' strategy started.'' @ [CHR 0x0A] @ ''You can use the '' @ [CHR 0x60] @ ''status'' @
       [CHR 0x60] @ '' command to query the progress.'')
     (app_log demo_second_task_run)) = 2"
    using demo_second_task_run_fields(3)
    by (simp only: strategy_started_message_text [symmetric]) simp
  ultimately show ?thesis
    using demo_first_task_run_fields demo_second_task_returns demo_second_task_run_fields(2)
    by blast
qed

theorem start_while_running_is_rejected_witness:
  "strategy demo_first_task_run \<noteq> None \<and>
   fst (status demo_environment demo_first_task_run) \<noteq> Returns True \<and>
   scheduled_start_market_making (snd (start demo_environment None demo_first_task_run)) =
     scheduled_start_market_making demo_first_task_run \<and>
   strategy (snd (start demo_environment None demo_first_task_run)) =
     strategy demo_first_task_run"
  using start_while_running_is_rejected [OF demo_first_task_run_fields(1), of demo_environment None]
    demo_first_task_run_fields(1)
  by blast

lemma demo_unknown_start_value:
  "demo_unknown_start =
   demo_idle_application
     \<lparr>reporting_module := Some \<lparr>report_aggregation_interval = 60, log_report_interval = 60,
                                 running = True\<rparr>,
      app_log := ['' - Config complete'', '' - Ethereum node running and current'',
                  ''Status check complete. Starting 'pure_market_making' strategy...''],
      scheduled_start_market_making := [''pure_market_making''],
      logging_records := [CommandHistory ''start''],
      exchange_rate_conversion_started := True\<rparr>"
  by (simp add: demo_unknown_start_def demo_unknown_strategy_environment_def demo_command_eval)

text \<open>
  C8, the code at the failing input. The strategy name is \<open>pure_market_making\<close> and the
  operator enters \<open>start\<close>. The handler runs \<open>start\<close>, which passes the status check,
  schedules the coroutine and returns: the \<open>try\<close> of the handler is left before the
  coroutine runs. The event loop then runs the task, \<open>start_market_making\<close> raises
  \<open>NotImplementedError\<close>, and the task ends with it. The application log holds the three
  lines of \<open>start\<close> and never the line of the handler's \<open>NotImplementedError\<close> branch
  (which that branch does log when it runs); the only trace is the record that asyncio
  logs for a task exception nobody retrieved. No strategy is set and \<open>self.app.exit()\<close>
  is not called.
\<close>

theorem unknown_strategy_not_reported:
  "in_memory_strategy demo_unknown_strategy_environment = ''pure_market_making'' \<and>
   scheduled_start_market_making demo_unknown_start = [''pure_market_making''] \<and>
   app_log demo_unknown_task_run =
     ['' - Config complete'', '' - Ethereum node running and current'',
      ''Status check complete. Starting 'pure_market_making' strategy...''] \<and>
   ''Command not yet implemented. This feature is currently under development.''
     \<notin> set (app_log demo_unknown_task_run) \<and>
   app_log (handle_exception NotImplementedError demo_idle_application) =
     [''Command not yet implemented. This feature is currently under development.''] \<and>
   task_exceptions demo_unknown_task_run = [NotImplementedError] \<and>
   logging_records demo_unknown_task_run =
     [CommandHistory ''start'', TaskExceptionNeverRetrieved NotImplementedError] \<and>
   scheduled_start_market_making demo_unknown_task_run = [] \<and>
   strategy demo_unknown_task_run = None \<and>
   app_exit_calls demo_unknown_task_run = 0"
proof -
  have task: "demo_unknown_task_run =
      demo_unknown_start
        \<lparr>scheduled_start_market_making := [],
         task_exceptions := [NotImplementedError],
         logging_records :=
           [CommandHistory ''start'', TaskExceptionNeverRetrieved NotImplementedError]\<rparr>"
    by (simp add: demo_unknown_task_run_def demo_unknown_start_value run_next_task_def
          start_market_making_def demo_idle_application_def init_def)
  have branch: "app_log (handle_exception NotImplementedError demo_idle_application) =
      [''Command not yet implemented. This feature is currently under development.'']"
    by (simp add: handle_exception_def not_implemented_message_def log_line_def
          demo_idle_application_def init_def)
  have name: "in_memory_strategy demo_unknown_strategy_environment = ''pure_market_making''"
    by (simp add: demo_unknown_strategy_environment_def demo_environment_def)
  have scheduled: "scheduled_start_market_making demo_unknown_start = [''pure_market_making'']"
    by (simp add: demo_unknown_start_value)
  have fields:
    "app_log demo_unknown_task_run =
       ['' - Config complete'', '' - Ethereum node running and current'',
        ''Status check complete. Starting 'pure_market_making' strategy...'']"
    "task_exceptions demo_unknown_task_run = [NotImplementedError]"
    "logging_records demo_unknown_task_run =
       [CommandHistory ''start'', TaskExceptionNeverRetrieved NotImplementedError]"
    "scheduled_start_market_making demo_unknown_task_run = []"
    "strategy demo_unknown_task_run = None"
    "app_exit_calls demo_unknown_task_run = 0"
    by (simp_all add: task demo_unknown_start_value demo_idle_application_def init_def)
  have absent: "''Command not yet implemented. This feature is currently under development.''
      \<notin> set (app_log demo_unknown_task_run)"
    by (simp add: fields(1))
  from name scheduled fields absent branch show ?thesis by simp
qed

end
